theory Spec2Isabelle
  imports Complex_Main "HOL-Library.Sublist" "HOL-Library.Product_Lexorder"
begin

section \<open>JavaScript values used by the front end\<close>

text \<open>
  Strings are HOL strings. The white space that \<^verbatim>\<open>String.prototype.trim\<close> strips is,
  among the code units a HOL character can hold, TAB, LF, VT, FF, CR, SPACE and the
  no-break space U+00A0.
\<close>

definition isWhiteSpace :: "char \<Rightarrow> bool" where
  "isWhiteSpace c = (of_char c \<in> {9, 10, 11, 12, 13, 32, 160 :: nat})"

definition trim :: "string \<Rightarrow> string" where
  "trim s = rev (dropWhile isWhiteSpace (rev (dropWhile isWhiteSpace s)))"

text \<open>A string is falsy exactly when it is empty: \<^verbatim>\<open>a || b\<close> on a string \<open>a\<close>.\<close>

definition or_else :: "string \<Rightarrow> string \<Rightarrow> string" where
  "or_else a b = (if a = [] then b else a)"

text \<open>\<^verbatim>\<open>a?.b || d\<close> where the left side may be undefined.\<close>

definition opt_or_else :: "string option \<Rightarrow> string \<Rightarrow> string" where
  "opt_or_else a d = (case a of None \<Rightarrow> d | Some s \<Rightarrow> or_else s d)"

text \<open>Decimal rendering of a non-negative integer: \<^verbatim>\<open>n.toString()\<close>.\<close>

definition digit_char :: "nat \<Rightarrow> char" where
  "digit_char d = char_of (48 + d)"

fun toString :: "nat \<Rightarrow> string" where
  "toString n = (if n < 10 then [digit_char n] else toString (n div 10) @ [digit_char (n mod 10)])"

declare toString.simps [simp del]

text \<open>
  What a \<^verbatim>\<open>catch\<close> clause can receive: an \<^verbatim>\<open>Error\<close> object with its message, or
  any other thrown value.
\<close>

datatype thrown = Error string | NonError

section \<open>services/api.ts\<close>

type_synonym metadata = "(string \<times> string) list"

text \<open>One element of \<^verbatim>\<open>AskResponse['sources']\<close>; the field \<^verbatim>\<open>text\<close> is \<open>source_text\<close>.\<close>

record source =
  source_text :: string
  metadata :: "metadata option"

text \<open>
  \<^verbatim>\<open>AskResponse\<close>. The interface declares \<^verbatim>\<open>sources\<close> as an array; the body is whatever
  the server sent, and the caller tests \<^verbatim>\<open>response.sources\<close> before using it, so the
  field is \<open>None\<close> when the body has none.
\<close>

record AskResponse =
  answer :: string
  sources :: "source list option"

record UploadResponse =
  message :: string
  filename :: string

text \<open>A browser \<^verbatim>\<open>File\<close>: its name, its MIME type (\<^verbatim>\<open>file.type\<close>) and its bytes.\<close>

record File =
  file_name :: string
  file_type :: string
  file_bytes :: string

datatype body = JsonBody "(string \<times> string) list" | FormData "(string \<times> File) list"

text \<open>A request as \<^verbatim>\<open>api.post(url, data, config)\<close> issues it.\<close>

record request =
  http_method :: string
  url :: string
  content_type :: string
  payload :: body

text \<open>
  The body of a failed response, as far as the code reads it:
  \<^verbatim>\<open>error.response?.data?.error\<close>. Each level may be missing.
\<close>

record error_data =
  error_field :: "string option"

record axios_response =
  status :: nat
  data :: "error_data option"

text \<open>
  How \<^verbatim>\<open>await api.post(...)\<close> ends: it resolves with the response body, rejects with an
  Axios error (with a response when the server answered, without one when it never
  did), or something else is thrown.
\<close>

datatype 'a outcome = Resolved 'a | AxiosError "axios_response option" | OtherFailure

definition server_error :: "axios_response option \<Rightarrow> string option" where
  "server_error r =
     (case r of None \<Rightarrow> None
      | Some resp \<Rightarrow> (case data resp of None \<Rightarrow> None | Some d \<Rightarrow> error_field d))"

definition upload_request :: "File \<Rightarrow> request" where
  "upload_request f =
     \<lparr>http_method = ''POST'', url = ''/upload'', content_type = ''multipart/form-data'',
      payload = FormData [(''file'', f)]\<rparr>"

definition ask_request :: "string \<Rightarrow> request" where
  "ask_request question =
     \<lparr>http_method = ''POST'', url = ''/ask'', content_type = ''application/json'',
      payload = JsonBody [(''question'', question)]\<rparr>"

text \<open>
  Both API methods take the transport \<open>post\<close> (the network and the server behind it) and
  return what the promise settles to, \<open>Inl\<close> for a rejection, together with the requests
  they issued.
\<close>

definition uploadDocument ::
  "(request \<Rightarrow> UploadResponse outcome) \<Rightarrow> File \<Rightarrow> (thrown + UploadResponse) \<times> request list" where
  "uploadDocument post f =
     (let req = upload_request f in
      (case post req of
         Resolved d \<Rightarrow> Inr d
       | AxiosError r \<Rightarrow> Inl (Error (opt_or_else (server_error r) ''Failed to upload document''))
       | OtherFailure \<Rightarrow> Inl (Error ''An unexpected error occurred during upload''),
       [req]))"

definition askQuestion ::
  "(request \<Rightarrow> AskResponse outcome) \<Rightarrow> string \<Rightarrow> (thrown + AskResponse) \<times> request list" where
  "askQuestion post question =
     (let req = ask_request question in
      (case post req of
         Resolved d \<Rightarrow> Inr d
       | AxiosError r \<Rightarrow> Inl (Error (opt_or_else (server_error r) ''Failed to get answer''))
       | OtherFailure \<Rightarrow> Inl (Error ''An unexpected error occurred while asking question''),
       [req]))"

section \<open>components/document-upload.tsx\<close>

datatype upload_status = StatusIdle | StatusSuccess | StatusError

text \<open>
  The state of \<^verbatim>\<open>DocumentUpload\<close>: its six \<^verbatim>\<open>useState\<close> cells, and the value of the
  hidden file input behind \<^verbatim>\<open>fileInputRef\<close> (\<open>None\<close> while the ref is not attached).
\<close>

record DocumentUpload =
  selectedFile :: "File option"
  uploading :: bool
  uploadStatus :: upload_status
  errorMessage :: string
  successMessage :: string
  isDragging :: bool
  fileInputValue :: "string option"

definition DocumentUpload_init :: DocumentUpload where
  "DocumentUpload_init =
     \<lparr>selectedFile = None, uploading = False, uploadStatus = StatusIdle, errorMessage = [],
      successMessage = [], isDragging = False, fileInputValue = Some []\<rparr>"

definition validTypes :: "string list" where
  "validTypes = [''application/pdf'', ''text/plain'']"

definition handleFileSelect :: "File \<Rightarrow> DocumentUpload \<Rightarrow> DocumentUpload" where
  "handleFileSelect f st =
     (if \<not> List.member validTypes (file_type f)
      then st\<lparr>errorMessage := ''Please upload a PDF or TXT file'', uploadStatus := StatusError\<rparr>
      else st\<lparr>selectedFile := Some f, uploadStatus := StatusIdle, errorMessage := []\<rparr>)"

text \<open>\<^verbatim>\<open>e.target.files && e.target.files[0]\<close>: the first file of the list, when there is one.\<close>

definition handleFileChange :: "File list \<Rightarrow> DocumentUpload \<Rightarrow> DocumentUpload" where
  "handleFileChange files st = (case files of [] \<Rightarrow> st | f # _ \<Rightarrow> handleFileSelect f st)"

definition handleDragOver :: "DocumentUpload \<Rightarrow> DocumentUpload" where
  "handleDragOver st = st\<lparr>isDragging := True\<rparr>"

definition handleDragLeave :: "DocumentUpload \<Rightarrow> DocumentUpload" where
  "handleDragLeave st = st\<lparr>isDragging := False\<rparr>"

definition handleDrop :: "File list \<Rightarrow> DocumentUpload \<Rightarrow> DocumentUpload" where
  "handleDrop files st =
     (let st1 = st\<lparr>isDragging := False\<rparr> in
      case files of [] \<Rightarrow> st1 | f # _ \<Rightarrow> handleFileSelect f st1)"

text \<open>The Remove button: \<^verbatim>\<open>onClick={() => setSelectedFile(null)}\<close>.\<close>

definition handleRemove :: "DocumentUpload \<Rightarrow> DocumentUpload" where
  "handleRemove st = st\<lparr>selectedFile := None\<rparr>"

text \<open>
  \<^verbatim>\<open>handleUpload\<close> is asynchronous. \<open>handleUpload_begin\<close> is the part before the
  \<^verbatim>\<open>await\<close>: it returns the file handed to \<^verbatim>\<open>uploadDocument\<close>, or \<open>None\<close> when the
  handler returned at its first line. \<open>handleUpload_settle\<close> is the part after it
  (\<^verbatim>\<open>try\<close> body, \<^verbatim>\<open>catch\<close> and \<^verbatim>\<open>finally\<close>), given what the promise settled to. The
  optional prop \<^verbatim>\<open>onUploadSuccess\<close> is a function on the parent's state \<open>'p\<close>.
\<close>

definition handleUpload_begin :: "DocumentUpload \<Rightarrow> DocumentUpload \<times> File option" where
  "handleUpload_begin st =
     (case selectedFile st of
        None \<Rightarrow> (st, None)
      | Some f \<Rightarrow> (st\<lparr>uploading := True, uploadStatus := StatusIdle, errorMessage := []\<rparr>, Some f))"

definition handleUpload_settle ::
  "(string \<Rightarrow> 'p \<Rightarrow> 'p) option \<Rightarrow> thrown + UploadResponse \<Rightarrow> DocumentUpload \<times> 'p \<Rightarrow> DocumentUpload \<times> 'p" where
  "handleUpload_settle onUploadSuccess result sp =
     (case sp of (st, parent) \<Rightarrow>
      (case result of
         Inr response \<Rightarrow>
           (st\<lparr>successMessage := or_else (message response) ''Document uploaded successfully'',
               uploadStatus := StatusSuccess,
               selectedFile := None,
               fileInputValue := (case fileInputValue st of None \<Rightarrow> None | Some _ \<Rightarrow> Some []),
               uploading := False\<rparr>,
            case onUploadSuccess of None \<Rightarrow> parent | Some cb \<Rightarrow> cb (filename response) parent)
       | Inl err \<Rightarrow>
           (st\<lparr>errorMessage := (case err of Error m \<Rightarrow> m | NonError \<Rightarrow> ''Upload failed''),
               uploadStatus := StatusError,
               uploading := False\<rparr>,
            parent)))"

text \<open>The whole handler, run to completion; the second component is the requests issued.\<close>

definition handleUpload ::
  "(request \<Rightarrow> UploadResponse outcome) \<Rightarrow> (string \<Rightarrow> 'p \<Rightarrow> 'p) option \<Rightarrow> DocumentUpload \<times> 'p
     \<Rightarrow> (DocumentUpload \<times> 'p) \<times> request list" where
  "handleUpload post onUploadSuccess sp =
     (case sp of (st, parent) \<Rightarrow>
      (case handleUpload_begin st of
         (st1, None) \<Rightarrow> ((st1, parent), [])
       | (st1, Some f) \<Rightarrow>
           (case uploadDocument post f of
              (result, reqs) \<Rightarrow> (handleUpload_settle onUploadSuccess result (st1, parent), reqs))))"

text \<open>The Upload button is rendered when a file is selected and the status is idle.\<close>

definition upload_button_shown :: "DocumentUpload \<Rightarrow> bool" where
  "upload_button_shown st = (selectedFile st \<noteq> None \<and> uploadStatus st = StatusIdle)"

section \<open>components/question-answer.tsx\<close>

datatype message_type = User | Assistant

text \<open>
  \<^verbatim>\<open>Message\<close>; the fields \<^verbatim>\<open>id\<close>, \<^verbatim>\<open>type\<close> and \<^verbatim>\<open>sources\<close> are \<open>msg_id\<close>, \<open>msg_type\<close> and
  \<open>msg_sources\<close>. A \<^verbatim>\<open>Date\<close> is its number of milliseconds.
\<close>

record Message =
  msg_id :: string
  msg_type :: message_type
  content :: string
  msg_sources :: "source list option"
  timestamp :: nat

text \<open>The two readings of the clock a handler makes: \<^verbatim>\<open>Date.now()\<close> and \<^verbatim>\<open>new Date()\<close>.\<close>

record clock =
  date_now :: nat
  new_date :: nat

text \<open>
  The state of \<^verbatim>\<open>QuestionAnswer\<close>. The two refs only scroll the list and focus the
  input; they hold no data.
\<close>

record QuestionAnswer =
  messages :: "Message list"
  inputValue :: string
  isLoading :: bool

definition QuestionAnswer_init :: QuestionAnswer where
  "QuestionAnswer_init = \<lparr>messages = [], inputValue = [], isLoading = False\<rparr>"

text \<open>The input's \<^verbatim>\<open>onChange\<close>.\<close>

definition handleInputChange :: "string \<Rightarrow> QuestionAnswer \<Rightarrow> QuestionAnswer" where
  "handleInputChange v st = st\<lparr>inputValue := v\<rparr>"

text \<open>
  \<^verbatim>\<open>handleSubmit\<close>, split at its \<^verbatim>\<open>await\<close> like \<open>handleUpload\<close>. \<open>handleSubmit_begin\<close>
  returns the question handed to \<^verbatim>\<open>askQuestion\<close>, or \<open>None\<close> when the guard returned.
\<close>

definition handleSubmit_begin :: "clock \<Rightarrow> QuestionAnswer \<Rightarrow> QuestionAnswer \<times> string option" where
  "handleSubmit_begin c st =
     (if trim (inputValue st) = [] \<or> isLoading st then (st, None)
      else
        (let userMessage =
               \<lparr>msg_id = toString (date_now c), msg_type = User, content = inputValue st,
                msg_sources = None, timestamp = new_date c\<rparr>
         in (st\<lparr>messages := messages st @ [userMessage], inputValue := [], isLoading := True\<rparr>,
             Some (inputValue st))))"

definition handleSubmit_settle ::
  "(source list \<Rightarrow> 'p \<Rightarrow> 'p) option \<Rightarrow> clock \<Rightarrow> thrown + AskResponse \<Rightarrow> QuestionAnswer \<times> 'p
     \<Rightarrow> QuestionAnswer \<times> 'p" where
  "handleSubmit_settle onSourcesUpdate c result sp =
     (case sp of (st, parent) \<Rightarrow>
      (case result of
         Inr response \<Rightarrow>
           (let assistantMessage =
                  \<lparr>msg_id = toString (date_now c + 1), msg_type = Assistant,
                   content = answer response, msg_sources = sources response,
                   timestamp = new_date c\<rparr>
            in (st\<lparr>messages := messages st @ [assistantMessage], isLoading := False\<rparr>,
                case onSourcesUpdate of
                  None \<Rightarrow> parent
                | Some cb \<Rightarrow> (case sources response of None \<Rightarrow> parent | Some srcs \<Rightarrow> cb srcs parent)))
       | Inl err \<Rightarrow>
           (let errorMessage =
                  \<lparr>msg_id = toString (date_now c + 1), msg_type = Assistant,
                   content = (case err of Error m \<Rightarrow> m
                              | NonError \<Rightarrow> ''Failed to get answer. Please try again.''),
                   msg_sources = None, timestamp = new_date c\<rparr>
            in (st\<lparr>messages := messages st @ [errorMessage], isLoading := False\<rparr>, parent))))"

definition handleSubmit ::
  "(request \<Rightarrow> AskResponse outcome) \<Rightarrow> (source list \<Rightarrow> 'p \<Rightarrow> 'p) option \<Rightarrow> clock \<Rightarrow> clock
     \<Rightarrow> QuestionAnswer \<times> 'p \<Rightarrow> (QuestionAnswer \<times> 'p) \<times> request list" where
  "handleSubmit post onSourcesUpdate c1 c2 sp =
     (case sp of (st, parent) \<Rightarrow>
      (case handleSubmit_begin c1 st of
         (st1, None) \<Rightarrow> ((st1, parent), [])
       | (st1, Some question) \<Rightarrow>
           (case askQuestion post question of
              (result, reqs) \<Rightarrow> (handleSubmit_settle onSourcesUpdate c2 result (st1, parent), reqs))))"

text \<open>The submit button's \<^verbatim>\<open>disabled\<close> attribute.\<close>

definition submit_disabled :: "QuestionAnswer \<Rightarrow> bool" where
  "submit_disabled st = (trim (inputValue st) = [] \<or> isLoading st)"

text \<open>The line under a message: shown when the message has a non-empty source list.\<close>

definition message_sources_badge :: "Message \<Rightarrow> string option" where
  "message_sources_badge m =
     (case msg_sources m of
        None \<Rightarrow> None
      | Some srcs \<Rightarrow> (if length srcs > 0 then Some (''Sources: '' @ toString (length srcs)) else None))"

section \<open>components/sources-panel.tsx\<close>

text \<open>
  What a component renders is modelled by the data it shows. A \<^verbatim>\<open>SourceItem\<close> shows its
  title, and, when expanded, the source's text and the metadata entries (only when the
  source has metadata with at least one key).
\<close>

record SourceItem_view =
  item_title :: string
  item_body :: "(string \<times> metadata option) option"

definition SourceItem :: "source \<Rightarrow> nat \<Rightarrow> bool \<Rightarrow> SourceItem_view" where
  "SourceItem src index isExpanded =
     \<lparr>item_title = ''Source '' @ toString (index + 1),
      item_body =
        (if isExpanded
         then Some (source_text src,
                    case metadata src of
                      None \<Rightarrow> None
                    | Some md \<Rightarrow> (if length md > 0 then Some md else None))
         else None)\<rparr>"

record SourcesPanel_view =
  panel_summary :: string
  panel_placeholder :: "string option"
  panel_items :: "SourceItem_view list"

text \<open>Every item starts collapsed (\<^verbatim>\<open>useState(false)\<close>).\<close>

definition SourcesPanel :: "source list \<Rightarrow> SourcesPanel_view" where
  "SourcesPanel srcs =
     \<lparr>panel_summary =
        (if length srcs > 0
         then toString (length srcs) @ '' relevant document ''
                @ (if length srcs = 1 then ''chunk'' else ''chunks'') @ '' found''
         else ''No sources available''),
      panel_placeholder =
        (if length srcs = 0 then Some ''Ask a question to see relevant sources'' else None),
      panel_items =
        (if length srcs = 0 then []
         else map (\<lambda>(index, src). SourceItem src index False) (enumerate 0 srcs))\<rparr>"

section \<open>App.tsx\<close>

record App =
  currentSources :: "source list"
  uploadedFiles :: "string list"

definition App_init :: App where
  "App_init = \<lparr>currentSources = [], uploadedFiles = []\<rparr>"

definition handleUploadSuccess :: "string \<Rightarrow> App \<Rightarrow> App" where
  "handleUploadSuccess fname app = app\<lparr>uploadedFiles := uploadedFiles app @ [fname]\<rparr>"

definition handleSourcesUpdate :: "source list \<Rightarrow> App \<Rightarrow> App" where
  "handleSourcesUpdate srcs app = app\<lparr>currentSources := srcs\<rparr>"

text \<open>The sources section is rendered only while there are current sources.\<close>

definition App_sources_section :: "App \<Rightarrow> SourcesPanel_view option" where
  "App_sources_section app =
     (if length (currentSources app) > 0 then Some (SourcesPanel (currentSources app)) else None)"

definition App_files_counter :: "App \<Rightarrow> string option" where
  "App_files_counter app =
     (if length (uploadedFiles app) > 0
      then Some (toString (length (uploadedFiles app)) @ '' document''
                 @ (if length (uploadedFiles app) \<noteq> 1 then ''s'' else []) @ '' uploaded'')
      else None)"

text \<open>
  The page: \<^verbatim>\<open>App\<close> with its two stateful children, wired as \<^verbatim>\<open>App\<close> wires them
  (\<^verbatim>\<open>onUploadSuccess={handleUploadSuccess}\<close>, \<^verbatim>\<open>onSourcesUpdate={handleSourcesUpdate}\<close>),
  and the requests sent so far. An event that makes a request carries the outcome the
  network will give it; each handler runs to completion before the next event.
\<close>

record page =
  app :: App
  upload :: DocumentUpload
  qa :: QuestionAnswer
  sent :: "request list"

definition page_init :: page where
  "page_init = \<lparr>app = App_init, upload = DocumentUpload_init, qa = QuestionAnswer_init, sent = []\<rparr>"

datatype event =
    FileChange string "File list"
  | Drop "File list"
  | DragOver
  | DragLeave
  | RemoveClick
  | UploadClick "UploadResponse outcome"
  | InputChange string
  | Submit clock clock "AskResponse outcome"

fun step :: "event \<Rightarrow> page \<Rightarrow> page" where
  "step (FileChange v files) pg =
     pg\<lparr>upload := handleFileChange files
                     ((upload pg)\<lparr>fileInputValue :=
                        (case fileInputValue (upload pg) of None \<Rightarrow> None | Some _ \<Rightarrow> Some v)\<rparr>)\<rparr>"
| "step (Drop files) pg = pg\<lparr>upload := handleDrop files (upload pg)\<rparr>"
| "step DragOver pg = pg\<lparr>upload := handleDragOver (upload pg)\<rparr>"
| "step DragLeave pg = pg\<lparr>upload := handleDragLeave (upload pg)\<rparr>"
| "step RemoveClick pg = pg\<lparr>upload := handleRemove (upload pg)\<rparr>"
| "step (UploadClick out) pg =
     (case handleUpload (\<lambda>_. out) (Some handleUploadSuccess) (upload pg, app pg) of
        ((u, a), reqs) \<Rightarrow> pg\<lparr>upload := u, app := a, sent := sent pg @ reqs\<rparr>)"
| "step (InputChange v) pg = pg\<lparr>qa := handleInputChange v (qa pg)\<rparr>"
| "step (Submit c1 c2 out) pg =
     (case handleSubmit (\<lambda>_. out) (Some handleSourcesUpdate) c1 c2 (qa pg, app pg) of
        ((q, a), reqs) \<Rightarrow> pg\<lparr>qa := q, app := a, sent := sent pg @ reqs\<rparr>)"

fun run :: "event list \<Rightarrow> page \<Rightarrow> page" where
  "run [] pg = pg"
| "run (e # es) pg = run es (step e pg)"

text \<open>The files carried by a request to \<^verbatim>\<open>/upload\<close>.\<close>

definition uploaded_files_of :: "request \<Rightarrow> File list" where
  "uploaded_files_of req = (case payload req of FormData parts \<Rightarrow> map snd parts | JsonBody _ \<Rightarrow> [])"

text \<open>The invariant of the page that upload validation maintains.\<close>

definition valid_file :: "File \<Rightarrow> bool" where
  "valid_file f = List.member validTypes (file_type f)"

definition upload_inv :: "page \<Rightarrow> bool" where
  "upload_inv pg =
     ((\<forall>f. selectedFile (upload pg) = Some f \<longrightarrow> valid_file f)
      \<and> (\<forall>req\<in>set (sent pg). \<forall>g\<in>set (uploaded_files_of req). valid_file g))"

section \<open>The answering pipeline behind the API\<close>

text \<open>
  The back end (\<^verbatim>\<open>chunker.py\<close>, \<^verbatim>\<open>endee_client.py\<close>, \<^verbatim>\<open>retriever.py\<close>, \<^verbatim>\<open>rag.py\<close>)
  is listed in \<^verbatim>\<open>backend/README.md\<close> only. Its operations are modelled from the
  specification's component design.
\<close>

text \<open>Modelled from the spec: the error taxonomy of the absent back end (section 7).\<close>

datatype core_error =
  InvalidConfiguration | InvalidArgument | EncodingError | StoreUnavailable | GenerationError

subsection \<open>Chunker\<close>

text \<open>
  Modelled from the spec: the Chunk of the data model (absent \<^verbatim>\<open>chunker.py\<close>), with its
  index, its offset range \<open>[chunk_start, chunk_end)\<close> into the source and its text.
\<close>

record Chunk =
  chunk_index :: nat
  chunk_start :: nat
  chunk_end :: nat
  chunk_text :: string

text \<open>
  Modelled from the spec: a chunk is the substring of the document at its offset range
  (absent \<^verbatim>\<open>chunker.py\<close>).
\<close>

definition mk_chunk :: "string \<Rightarrow> nat \<Rightarrow> nat \<Rightarrow> nat \<Rightarrow> Chunk" where
  "mk_chunk txt idx s e =
     \<lparr>chunk_index = idx, chunk_start = s, chunk_end = e, chunk_text = take (e - s) (drop s txt)\<rparr>"

text \<open>
  Modelled from the spec: the boundary policy of the absent \<^verbatim>\<open>chunker.py\<close>. A cut at
  offset \<open>p\<close> does not split a word when the character before or at \<open>p\<close> is white space.
\<close>

definition is_boundary :: "string \<Rightarrow> nat \<Rightarrow> bool" where
  "is_boundary txt p =
     (0 < p \<and> p < length txt \<and> (isWhiteSpace (txt ! (p - 1)) \<or> isWhiteSpace (txt ! p)))"

text \<open>
  Modelled from the spec: the nearest boundary at or before \<open>e\<close>, looking back at most
  \<open>k\<close> characters (absent \<^verbatim>\<open>chunker.py\<close>).
\<close>

fun nearest_boundary :: "string \<Rightarrow> nat \<Rightarrow> nat \<Rightarrow> nat option" where
  "nearest_boundary txt e 0 = (if is_boundary txt e then Some e else None)"
| "nearest_boundary txt e (Suc k) =
     (if is_boundary txt e then Some e
      else if e = 0 then None
      else nearest_boundary txt (e - 1) k)"

text \<open>
  Modelled from the spec: where the window starting at \<open>s\<close> and ending at the exact
  offset \<open>e\<close> is cut (absent \<^verbatim>\<open>chunker.py\<close>): at the nearest preceding boundary within
  the lookback that leaves the chunk non-empty, else at \<open>e\<close>.
\<close>

definition snap :: "string \<Rightarrow> nat \<Rightarrow> nat \<Rightarrow> nat \<Rightarrow> nat" where
  "snap txt s e lookback =
     (case nearest_boundary txt e lookback of
        None \<Rightarrow> e
      | Some p \<Rightarrow> (if s < p then p else e))"

text \<open>
  Modelled from the spec: the sliding window of the absent \<^verbatim>\<open>chunker.py\<close>, of length
  \<open>csize\<close>, advancing by \<open>csize - overlap\<close>; the window that reaches the end of the text is
  the last one and may be shorter. The test \<open>csize \<le> overlap\<close> never holds for a valid
  configuration; it ends the walk where the window could not advance.
\<close>

function windows :: "string \<Rightarrow> nat \<Rightarrow> nat \<Rightarrow> nat \<Rightarrow> nat \<Rightarrow> nat \<Rightarrow> Chunk list" where
  "windows txt csize overlap lookback s idx =
     (if csize \<le> overlap \<or> length txt \<le> s + csize
      then [mk_chunk txt idx s (length txt)]
      else mk_chunk txt idx s (snap txt s (s + csize) lookback)
             # windows txt csize overlap lookback (s + (csize - overlap)) (idx + 1))"
  by pat_completeness auto
termination
  by (relation "measure (\<lambda>(txt, csize, overlap, lookback, s, idx). length txt - s)") auto

declare windows.simps [simp del]

text \<open>
  Modelled from the spec: \<^verbatim>\<open>chunk(text, chunk_size, overlap)\<close> of the absent
  \<^verbatim>\<open>chunker.py\<close>. The size of the lookback window is left open by the specification
  and is a parameter.
\<close>

definition chunk :: "string \<Rightarrow> int \<Rightarrow> int \<Rightarrow> nat \<Rightarrow> core_error + Chunk list" where
  "chunk txt chunk_size overlap lookback =
     (if \<not> (chunk_size > 0 \<and> 0 \<le> overlap \<and> overlap < chunk_size) then Inl InvalidConfiguration
      else if list_all isWhiteSpace txt then Inr []
      else Inr (filter (\<lambda>c. chunk_text c \<noteq> [])
                  (windows txt (nat chunk_size) (nat overlap) lookback 0 0)))"

text \<open>
  Modelled from the spec: the chunk count that the testable property of section 8 states,
  \<open>\<lceil>(len - overlap) / (chunk_size - overlap)\<rceil>\<close>, in the specification's own words.
\<close>

definition expected_chunk_count :: "nat \<Rightarrow> int \<Rightarrow> int \<Rightarrow> int" where
  "expected_chunk_count len chunk_size overlap =
     \<lceil>(real len - real_of_int overlap) / (real_of_int chunk_size - real_of_int overlap)\<rceil>"

subsection \<open>Vector store client and retriever\<close>

text \<open>
  Modelled from the spec: the Embedding Vector and the Vector Record of the data model
  (absent \<^verbatim>\<open>endee_client.py\<close>). Components and scores are real numbers: the ordering
  properties below are about the order of the scores, not about rounding, and a
  floating-point NaN, which no order places, is outside the model. An id is a number.
\<close>

type_synonym vector = "real list"

record VectorRecord =
  rec_id :: nat
  rec_vector :: vector
  rec_text :: string
  rec_metadata :: metadata

text \<open>
  Modelled from the spec: the Source of the data model (absent \<^verbatim>\<open>retriever.py\<close>), a
  retrieved record as the caller sees it, with its id and its similarity score.
\<close>

record Source =
  src_id :: nat
  src_text :: string
  src_metadata :: metadata
  src_score :: real

text \<open>
  Modelled from the spec: the dot product, the similarity metric on normalised vectors
  (absent \<^verbatim>\<open>endee_client.py\<close>).
\<close>

definition dot :: "vector \<Rightarrow> vector \<Rightarrow> real" where
  "dot a b = sum_list (map2 (*) a b)"

text \<open>
  Modelled from the spec: \<^verbatim>\<open>query\<close> of the absent \<^verbatim>\<open>endee_client.py\<close>. The index is a
  list of records, the similarity metric \<open>sim\<close> is the index's own (cosine, or \<open>dot\<close> on
  normalised vectors); results are ordered by descending score, then ascending id.
\<close>

definition query ::
  "(vector \<Rightarrow> vector \<Rightarrow> real) \<Rightarrow> VectorRecord list \<Rightarrow> vector \<Rightarrow> int \<Rightarrow> (VectorRecord \<Rightarrow> bool) option
     \<Rightarrow> core_error + (VectorRecord \<times> real) list" where
  "query sim store v top_k flt =
     (if top_k \<le> 0 then Inl InvalidArgument
      else Inr (take (nat top_k)
                  (sort_key (\<lambda>(r, s). (- s, rec_id r))
                     (filter (\<lambda>(r, s). case flt of None \<Rightarrow> True | Some p \<Rightarrow> p r)
                        (map (\<lambda>r. (r, sim v (rec_vector r))) store)))))"

text \<open>Modelled from the spec: a hit re-exposed as a Source (absent \<^verbatim>\<open>retriever.py\<close>).\<close>

definition to_source :: "VectorRecord \<times> real \<Rightarrow> Source" where
  "to_source h =
     \<lparr>src_id = rec_id (fst h), src_text = rec_text (fst h), src_metadata = rec_metadata (fst h),
      src_score = snd h\<rparr>"

text \<open>
  Modelled from the spec: the retriever's defensive removal of repeated ids (absent
  \<^verbatim>\<open>retriever.py\<close>); the first, best-ranked occurrence of an id is kept.
\<close>

fun dedup_ids :: "nat list \<Rightarrow> Source list \<Rightarrow> Source list" where
  "dedup_ids seen [] = []"
| "dedup_ids seen (x # xs) =
     (if src_id x \<in> set seen then dedup_ids seen xs else x # dedup_ids (src_id x # seen) xs)"

text \<open>
  Modelled from the spec: \<^verbatim>\<open>search(query_vector, top_k, score_threshold)\<close> of the absent
  \<^verbatim>\<open>retriever.py\<close>: delegate to \<open>query\<close>, re-assert distinct ids, drop the results below
  the threshold.
\<close>

definition search ::
  "(vector \<Rightarrow> vector \<Rightarrow> real) \<Rightarrow> VectorRecord list \<Rightarrow> vector \<Rightarrow> int \<Rightarrow> real option
     \<Rightarrow> core_error + Source list" where
  "search sim store v top_k score_threshold =
     (case query sim store v top_k None of
        Inl e \<Rightarrow> Inl e
      | Inr hits \<Rightarrow>
          Inr (filter (\<lambda>x. case score_threshold of None \<Rightarrow> True | Some t \<Rightarrow> t \<le> src_score x)
                 (dedup_ids [] (map to_source hits))))"

text \<open>
  Modelled from the spec: the order the specification gives the results of the absent
  \<^verbatim>\<open>endee_client.py\<close>, a higher score first and among equal scores the smaller id.
\<close>

definition ranks_before :: "Source \<Rightarrow> Source \<Rightarrow> bool" where
  "ranks_before a b =
     (src_score a > src_score b \<or> (src_score a = src_score b \<and> src_id a \<le> src_id b))"

subsection \<open>Orchestrator\<close>

text \<open>
  Modelled from the spec: the Query and the Answer of the data model (absent \<^verbatim>\<open>rag.py\<close>).
\<close>

record Query =
  query_question :: string
  query_top_k :: "int option"
  query_score_threshold :: "real option"

record Answer =
  answer_text :: string
  answer_sources :: "Source list"

text \<open>
  Modelled from the spec: the context of the absent \<^verbatim>\<open>rag.py\<close>, the ranked sources taken
  in order while their texts fit the character budget.
\<close>

fun within_budget :: "nat \<Rightarrow> Source list \<Rightarrow> Source list" where
  "within_budget budget [] = []"
| "within_budget budget (x # xs) =
     (if length (src_text x) \<le> budget then x # within_budget (budget - length (src_text x)) xs
      else [])"

text \<open>Modelled from the spec: the grounding prompt of the absent \<^verbatim>\<open>rag.py\<close>.\<close>

definition build_prompt :: "string \<Rightarrow> Source list \<Rightarrow> string" where
  "build_prompt q ctx =
     ''Answer only from the context below.'' @ [CHR 0x0A]
       @ concat (map (\<lambda>x. src_text x @ [CHR 0x0A]) ctx)
       @ ''Question: '' @ q"

text \<open>
  Modelled from the spec: \<^verbatim>\<open>answer(query)\<close> of the absent \<^verbatim>\<open>rag.py\<close>. The encoder
  \<open>encode\<close> and the generative model \<open>generate\<close> are the collaborators; each may fail.
  The default \<^verbatim>\<open>top_k\<close> is 4.
\<close>

definition answer_query ::
  "(string \<Rightarrow> core_error + vector) \<Rightarrow> (string \<Rightarrow> core_error + string)
     \<Rightarrow> (vector \<Rightarrow> vector \<Rightarrow> real) \<Rightarrow> VectorRecord list \<Rightarrow> nat \<Rightarrow> Query \<Rightarrow> core_error + Answer" where
  "answer_query encode generate sim store budget q =
     (case encode (query_question q) of
        Inl e \<Rightarrow> Inl e
      | Inr v \<Rightarrow>
          (case search sim store v (case query_top_k q of None \<Rightarrow> 4 | Some k \<Rightarrow> k)
                  (query_score_threshold q) of
             Inl e \<Rightarrow> Inl e
           | Inr found \<Rightarrow>
               (let ctx = within_budget budget found in
                case generate (build_prompt (query_question q) ctx) of
                  Inl e \<Rightarrow> Inl GenerationError
                | Inr t \<Rightarrow> Inr \<lparr>answer_text = t, answer_sources = ctx\<rparr>)))"

text \<open>
  Modelled from the spec: the body of the \<^verbatim>\<open>/ask\<close> response that the absent \<^verbatim>\<open>app.py\<close>
  builds from an Answer, each source with its text and metadata.
\<close>

definition ask_response_of :: "Answer \<Rightarrow> AskResponse" where
  "ask_response_of a =
     \<lparr>answer = answer_text a,
      sources = Some (map (\<lambda>x. \<lparr>source_text = src_text x, metadata = Some (src_metadata x)\<rparr>)
                        (answer_sources a))\<rparr>"

section \<open>Properties of the API methods\<close>

lemma askQuestion_fst:
  "fst (askQuestion post q) =
     (case post (ask_request q) of
        Resolved d \<Rightarrow> Inr d
      | AxiosError r \<Rightarrow> Inl (Error (opt_or_else (server_error r) ''Failed to get answer''))
      | OtherFailure \<Rightarrow> Inl (Error ''An unexpected error occurred while asking question''))"
  by (simp add: askQuestion_def Let_def)

lemma askQuestion_snd: "snd (askQuestion post q) = [ask_request q]"
  by (simp add: askQuestion_def Let_def)

lemma uploadDocument_fst:
  "fst (uploadDocument post f) =
     (case post (upload_request f) of
        Resolved d \<Rightarrow> Inr d
      | AxiosError r \<Rightarrow> Inl (Error (opt_or_else (server_error r) ''Failed to upload document''))
      | OtherFailure \<Rightarrow> Inl (Error ''An unexpected error occurred during upload''))"
  by (simp add: uploadDocument_def Let_def)

lemma uploadDocument_snd: "snd (uploadDocument post f) = [upload_request f]"
  by (simp add: uploadDocument_def Let_def)

lemma askQuestion_throws_Error: "fst (askQuestion post q) \<noteq> Inl NonError"
  by (simp add: askQuestion_fst split: outcome.splits)

text \<open>
  C1. \<^verbatim>\<open>askQuestion\<close> issues exactly one request, a POST to \<^verbatim>\<open>/ask\<close> whose JSON body
  has the single key \<^verbatim>\<open>question\<close> bound to the question; when the request resolves, the
  value returned is the response body itself, unchanged.
\<close>

theorem askQuestion_posts_question_returns_body:
  "snd (askQuestion post q) =
     [\<lparr>http_method = ''POST'', url = ''/ask'', content_type = ''application/json'',
       payload = JsonBody [(''question'', q)]\<rparr>]
   \<and> (\<forall>d. post (ask_request q) = Resolved d \<longrightarrow> fst (askQuestion post q) = Inr d)"
  by (simp add: askQuestion_def ask_request_def Let_def)

theorem askQuestion_posts_question_returns_body_witness:
  "snd (askQuestion
          (\<lambda>_. Resolved \<lparr>answer = ''blue'',
                           sources = Some [\<lparr>source_text = ''The sky is blue.'', metadata = None\<rparr>]\<rparr>)
          ''What color is the sky?'') =
     [\<lparr>http_method = ''POST'', url = ''/ask'', content_type = ''application/json'',
       payload = JsonBody [(''question'', ''What color is the sky?'')]\<rparr>]
   \<and> fst (askQuestion
            (\<lambda>_. Resolved \<lparr>answer = ''blue'',
                             sources = Some [\<lparr>source_text = ''The sky is blue.'', metadata = None\<rparr>]\<rparr>)
            ''What color is the sky?'') =
     Inr \<lparr>answer = ''blue'', sources = Some [\<lparr>source_text = ''The sky is blue.'', metadata = None\<rparr>]\<rparr>"
  using askQuestion_posts_question_returns_body
    [of "\<lambda>_. Resolved \<lparr>answer = ''blue'',
                           sources = Some [\<lparr>source_text = ''The sky is blue.'', metadata = None\<rparr>]\<rparr>"
        "''What color is the sky?''"]
  by simp

text \<open>
  C2, as stated, fails when the failed response's body has an \<^verbatim>\<open>error\<close> field that is the
  empty string: \<^verbatim>\<open>||\<close> takes the fallback, so the message thrown is not the server's.
\<close>

theorem askQuestion_empty_error_field_counterexample:
  "server_error (Some \<lparr>status = 500, data = Some \<lparr>error_field = Some []\<rparr>\<rparr>) = Some []
   \<and> fst (askQuestion
            (\<lambda>_. AxiosError (Some \<lparr>status = 500, data = Some \<lparr>error_field = Some []\<rparr>\<rparr>))
            ''why?'')
       = Inl (Error ''Failed to get answer'')
   \<and> fst (askQuestion
            (\<lambda>_. AxiosError (Some \<lparr>status = 500, data = Some \<lparr>error_field = Some []\<rparr>\<rparr>))
            ''why?'')
       \<noteq> Inl (Error [])"
  by (simp add: askQuestion_fst server_error_def opt_or_else_def or_else_def)

text \<open>
  C2, amended. When the POST to \<^verbatim>\<open>/ask\<close> fails, \<^verbatim>\<open>askQuestion\<close> throws an \<^verbatim>\<open>Error\<close>: with
  the server's message when the response body has a non-empty \<^verbatim>\<open>error\<close> field, with
  \<^verbatim>\<open>Failed to get answer\<close> when an Axios error has no such field or an empty one, and
  with \<^verbatim>\<open>An unexpected error occurred while asking question\<close> for any other failure. It
  returns a value exactly when the request resolved, and that value is the response body.
\<close>

theorem askQuestion_failure_throws:
  "(post (ask_request q) = AxiosError r \<and> server_error r = Some m \<and> m \<noteq> [] \<longrightarrow>
      fst (askQuestion post q) = Inl (Error m))
   \<and> (post (ask_request q) = AxiosError r \<and> (server_error r = None \<or> server_error r = Some []) \<longrightarrow>
      fst (askQuestion post q) = Inl (Error ''Failed to get answer''))
   \<and> (post (ask_request q) = OtherFailure \<longrightarrow>
      fst (askQuestion post q) = Inl (Error ''An unexpected error occurred while asking question''))
   \<and> (fst (askQuestion post q) = Inr d \<longleftrightarrow> post (ask_request q) = Resolved d)"
  by (auto simp: askQuestion_fst opt_or_else_def or_else_def split: outcome.splits)

theorem askQuestion_failure_throws_witness:
  "fst (askQuestion
          (\<lambda>_. AxiosError (Some \<lparr>status = 500,
                                   data = Some \<lparr>error_field = Some ''No documents indexed''\<rparr>\<rparr>))
          ''why?'')
     = Inl (Error ''No documents indexed'')
   \<and> fst (askQuestion (\<lambda>_. AxiosError None) ''why?'') = Inl (Error ''Failed to get answer'')
   \<and> fst (askQuestion (\<lambda>_. OtherFailure) ''why?'')
       = Inl (Error ''An unexpected error occurred while asking question'')
   \<and> fst (askQuestion (\<lambda>_. Resolved \<lparr>answer = ''blue'', sources = Some []\<rparr>) ''why?'')
       = Inr \<lparr>answer = ''blue'', sources = Some []\<rparr>"
  using
    askQuestion_failure_throws
      [of "\<lambda>_. AxiosError (Some \<lparr>status = 500,
                                     data = Some \<lparr>error_field = Some ''No documents indexed''\<rparr>\<rparr>)"
          "''why?''"
          "Some \<lparr>status = 500, data = Some \<lparr>error_field = Some ''No documents indexed''\<rparr>\<rparr>"
          "''No documents indexed''"]
    askQuestion_failure_throws [of "\<lambda>_. AxiosError None" "''why?''" None]
    askQuestion_failure_throws [of "\<lambda>_. OtherFailure" "''why?''"]
    askQuestion_failure_throws
      [of "\<lambda>_. Resolved \<lparr>answer = ''blue'', sources = Some []\<rparr>" "''why?''" _ _
          "\<lparr>answer = ''blue'', sources = Some []\<rparr>"]
  by (simp add: server_error_def)

section \<open>Properties of DocumentUpload\<close>

lemma handleFileSelect_selected:
  "selectedFile (handleFileSelect f st) = Some g \<Longrightarrow>
     selectedFile st = Some g \<or> (g = f \<and> valid_file f)"
  by (auto simp: handleFileSelect_def valid_file_def split: if_splits)

lemma uploaded_files_of_ask [simp]: "uploaded_files_of (ask_request q) = []"
  by (simp add: uploaded_files_of_def ask_request_def)

lemma uploaded_files_of_upload [simp]: "uploaded_files_of (upload_request f) = [f]"
  by (simp add: uploaded_files_of_def upload_request_def)

lemma handleUpload_selected:
  "selectedFile (fst (fst (handleUpload post cb (st, p)))) = Some g \<Longrightarrow> selectedFile st = Some g"
  by (auto simp: handleUpload_def handleUpload_begin_def handleUpload_settle_def
      split: option.splits prod.splits sum.splits)

lemma handleUpload_sent:
  "snd (handleUpload post cb (st, p)) =
     (case selectedFile st of None \<Rightarrow> [] | Some f \<Rightarrow> [upload_request f])"
  by (auto simp: handleUpload_def handleUpload_begin_def uploadDocument_def Let_def
      split: option.splits prod.splits)

lemma handleSubmit_sent:
  "snd (handleSubmit post cb c1 c2 (st, p)) =
     (if trim (inputValue st) = [] \<or> isLoading st then [] else [ask_request (inputValue st)])"
  by (auto simp: handleSubmit_def handleSubmit_begin_def askQuestion_def Let_def
      split: option.splits prod.splits)

lemma step_upload_inv: "upload_inv pg \<Longrightarrow> upload_inv (step e pg)"
proof (cases e)
  case (FileChange v files)
  assume "upload_inv pg"
  then show ?thesis using FileChange
    by (cases files) (auto simp: upload_inv_def handleFileChange_def dest!: handleFileSelect_selected)
next
  case (Drop files)
  assume "upload_inv pg"
  then show ?thesis using Drop
    by (cases files) (auto simp: upload_inv_def handleDrop_def Let_def dest!: handleFileSelect_selected)
next
  case (UploadClick out)
  assume inv: "upload_inv pg"
  obtain u a reqs where
    h: "handleUpload (\<lambda>_. out) (Some handleUploadSuccess) (upload pg, app pg) = ((u, a), reqs)"
    by (metis surj_pair)
  have sel: "\<And>g. selectedFile u = Some g \<Longrightarrow> selectedFile (upload pg) = Some g"
    using handleUpload_selected [of "\<lambda>_. out" "Some handleUploadSuccess" "upload pg" "app pg"] h
    by simp
  have reqs: "reqs = (case selectedFile (upload pg) of None \<Rightarrow> [] | Some f \<Rightarrow> [upload_request f])"
    using handleUpload_sent [of "\<lambda>_. out" "Some handleUploadSuccess" "upload pg" "app pg"] h
    by simp
  show ?thesis using inv UploadClick h sel reqs
    by (auto simp: upload_inv_def split: option.splits)
next
  case (Submit c1 c2 out)
  assume inv: "upload_inv pg"
  obtain q a reqs where
    h: "handleSubmit (\<lambda>_. out) (Some handleSourcesUpdate) c1 c2 (qa pg, app pg) = ((q, a), reqs)"
    by (metis surj_pair)
  have reqs: "reqs = (if trim (inputValue (qa pg)) = [] \<or> isLoading (qa pg) then []
                      else [ask_request (inputValue (qa pg))])"
    using handleSubmit_sent [of "\<lambda>_. out" "Some handleSourcesUpdate" c1 c2 "qa pg" "app pg"] h
    by simp
  show ?thesis using inv Submit h reqs
    by (auto simp: upload_inv_def split: if_splits)
qed (auto simp: upload_inv_def handleDragOver_def handleDragLeave_def handleRemove_def
    handleInputChange_def)

lemma run_upload_inv: "upload_inv pg \<Longrightarrow> upload_inv (run es pg)"
  by (induction es arbitrary: pg) (auto intro: step_upload_inv)

lemma upload_inv_init: "upload_inv page_init"
  by (simp add: upload_inv_def page_init_def DocumentUpload_init_def)

text \<open>
  C3. For a file whose MIME type is neither \<^verbatim>\<open>application/pdf\<close> nor \<^verbatim>\<open>text/plain\<close>,
  \<^verbatim>\<open>handleFileSelect\<close> sets the error message and the status \<^verbatim>\<open>error\<close> and changes nothing
  else, so the file is not selected; and whatever the user does on the page from its
  initial state, no request sent carries that file. For a file of an accepted type it
  selects the file, clears the error message and sets the status to \<^verbatim>\<open>idle\<close>.
\<close>

theorem handleFileSelect_validates_type:
  "(file_type f \<noteq> ''application/pdf'' \<and> file_type f \<noteq> ''text/plain'' \<longrightarrow>
      handleFileSelect f st =
        st\<lparr>errorMessage := ''Please upload a PDF or TXT file'', uploadStatus := StatusError\<rparr>
      \<and> selectedFile (handleFileSelect f st) = selectedFile st
      \<and> (\<forall>req\<in>set (sent (run es page_init)). f \<notin> set (uploaded_files_of req)))
   \<and> (file_type f = ''application/pdf'' \<or> file_type f = ''text/plain'' \<longrightarrow>
      handleFileSelect f st =
        st\<lparr>selectedFile := Some f, uploadStatus := StatusIdle, errorMessage := []\<rparr>)"
proof -
  have "upload_inv (run es page_init)"
    by (rule run_upload_inv) (rule upload_inv_init)
  then have "\<forall>req\<in>set (sent (run es page_init)). \<forall>g\<in>set (uploaded_files_of req). valid_file g"
    by (simp add: upload_inv_def)
  then have "\<not> valid_file f \<Longrightarrow>
      \<forall>req\<in>set (sent (run es page_init)). f \<notin> set (uploaded_files_of req)"
    by blast
  then show ?thesis
    by (auto simp: handleFileSelect_def valid_file_def validTypes_def)
qed

theorem handleFileSelect_validates_type_witness:
  "handleFileSelect \<lparr>file_name = ''cat.png'', file_type = ''image/png'', file_bytes = ''PNG''\<rparr>
       DocumentUpload_init =
     DocumentUpload_init
       \<lparr>errorMessage := ''Please upload a PDF or TXT file'', uploadStatus := StatusError\<rparr>
   \<and> sent (run [Drop [\<lparr>file_name = ''cat.png'', file_type = ''image/png'', file_bytes = ''PNG''\<rparr>],
                 Drop [\<lparr>file_name = ''notes.txt'', file_type = ''text/plain'',
                         file_bytes = ''The sky is blue.''\<rparr>],
                 UploadClick (Resolved \<lparr>message = ''ok'', filename = ''notes.txt''\<rparr>)] page_init)
       = [upload_request \<lparr>file_name = ''notes.txt'', file_type = ''text/plain'',
                           file_bytes = ''The sky is blue.''\<rparr>]
   \<and> \<lparr>file_name = ''cat.png'', file_type = ''image/png'', file_bytes = ''PNG''\<rparr>
       \<notin> set (uploaded_files_of
                (upload_request \<lparr>file_name = ''notes.txt'', file_type = ''text/plain'',
                                  file_bytes = ''The sky is blue.''\<rparr>))
   \<and> handleFileSelect
         \<lparr>file_name = ''notes.txt'', file_type = ''text/plain'', file_bytes = ''The sky is blue.''\<rparr>
         DocumentUpload_init =
       DocumentUpload_init
         \<lparr>selectedFile := Some \<lparr>file_name = ''notes.txt'', file_type = ''text/plain'',
                                 file_bytes = ''The sky is blue.''\<rparr>,
          uploadStatus := StatusIdle, errorMessage := []\<rparr>"
proof -
  have sent:
    "sent (run [Drop [\<lparr>file_name = ''cat.png'', file_type = ''image/png'', file_bytes = ''PNG''\<rparr>],
                Drop [\<lparr>file_name = ''notes.txt'', file_type = ''text/plain'',
                        file_bytes = ''The sky is blue.''\<rparr>],
                UploadClick (Resolved \<lparr>message = ''ok'', filename = ''notes.txt''\<rparr>)] page_init)
       = [upload_request \<lparr>file_name = ''notes.txt'', file_type = ''text/plain'',
                           file_bytes = ''The sky is blue.''\<rparr>]"
    by (simp add: page_init_def DocumentUpload_init_def handleDrop_def handleFileSelect_def
        validTypes_def handleUpload_def handleUpload_begin_def uploadDocument_def Let_def
        handleUpload_settle_def)
  show ?thesis
    using sent
      handleFileSelect_validates_type
        [of "\<lparr>file_name = ''cat.png'', file_type = ''image/png'', file_bytes = ''PNG''\<rparr>"
            DocumentUpload_init
            "[Drop [\<lparr>file_name = ''cat.png'', file_type = ''image/png'', file_bytes = ''PNG''\<rparr>],
              Drop [\<lparr>file_name = ''notes.txt'', file_type = ''text/plain'',
                      file_bytes = ''The sky is blue.''\<rparr>],
              UploadClick (Resolved \<lparr>message = ''ok'', filename = ''notes.txt''\<rparr>)]"]
      handleFileSelect_validates_type
        [of "\<lparr>file_name = ''notes.txt'', file_type = ''text/plain'',
              file_bytes = ''The sky is blue.''\<rparr>"
            DocumentUpload_init]
    by simp
qed

text \<open>
  C4. \<^verbatim>\<open>uploadDocument\<close> issues exactly one request, a POST to \<^verbatim>\<open>/upload\<close> sent as
  \<^verbatim>\<open>multipart/form-data\<close> with the file under the form key \<^verbatim>\<open>file\<close>, and when the request
  resolves it returns the response body. \<^verbatim>\<open>handleUpload\<close> on the selected file then clears
  the selection, resets the file input, records the success message (the response's
  message, or \<^verbatim>\<open>Document uploaded successfully\<close> when that is empty), sets the status
  \<^verbatim>\<open>success\<close>, and calls \<^verbatim>\<open>onUploadSuccess\<close> once with the returned file name.
\<close>

theorem upload_success_effects:
  "snd (uploadDocument post f) =
     [\<lparr>http_method = ''POST'', url = ''/upload'', content_type = ''multipart/form-data'',
       payload = FormData [(''file'', f)]\<rparr>]
   \<and> (post (upload_request f) = Resolved r \<longrightarrow>
        fst (uploadDocument post f) = Inr r
        \<and> (selectedFile st = Some f \<longrightarrow>
             handleUpload post (Some cb) (st, parent) =
               ((st\<lparr>selectedFile := None, uploading := False, uploadStatus := StatusSuccess,
                    errorMessage := [],
                    successMessage := or_else (message r) ''Document uploaded successfully'',
                    fileInputValue :=
                      (case fileInputValue st of None \<Rightarrow> None | Some _ \<Rightarrow> Some [])\<rparr>,
                 cb (filename r) parent),
                [upload_request f])))"
  by (simp add: uploadDocument_def Let_def handleUpload_def handleUpload_begin_def
      handleUpload_settle_def upload_request_def)

theorem upload_success_effects_witness:
  "snd (uploadDocument
          (\<lambda>_. Resolved \<lparr>message = ''Document uploaded successfully'', filename = ''notes.txt''\<rparr>)
          \<lparr>file_name = ''notes.txt'', file_type = ''text/plain'', file_bytes = ''The sky is blue.''\<rparr>) =
     [\<lparr>http_method = ''POST'', url = ''/upload'', content_type = ''multipart/form-data'',
       payload = FormData [(''file'', \<lparr>file_name = ''notes.txt'', file_type = ''text/plain'',
                                        file_bytes = ''The sky is blue.''\<rparr>)]\<rparr>]
   \<and> fst (uploadDocument
            (\<lambda>_. Resolved \<lparr>message = ''Document uploaded successfully'', filename = ''notes.txt''\<rparr>)
            \<lparr>file_name = ''notes.txt'', file_type = ''text/plain'', file_bytes = ''The sky is blue.''\<rparr>) =
       Inr \<lparr>message = ''Document uploaded successfully'', filename = ''notes.txt''\<rparr>
   \<and> handleUpload
         (\<lambda>_. Resolved \<lparr>message = ''Document uploaded successfully'', filename = ''notes.txt''\<rparr>)
         (Some handleUploadSuccess)
         (DocumentUpload_init
            \<lparr>selectedFile := Some \<lparr>file_name = ''notes.txt'', file_type = ''text/plain'',
                                    file_bytes = ''The sky is blue.''\<rparr>,
             fileInputValue := Some ''C:/fakepath/notes.txt''\<rparr>,
          App_init) =
       ((DocumentUpload_init
           \<lparr>uploadStatus := StatusSuccess, successMessage := ''Document uploaded successfully''\<rparr>,
         \<lparr>currentSources = [], uploadedFiles = [''notes.txt'']\<rparr>),
        [upload_request \<lparr>file_name = ''notes.txt'', file_type = ''text/plain'',
                          file_bytes = ''The sky is blue.''\<rparr>])"
  using upload_success_effects
    [of "\<lambda>_. Resolved \<lparr>message = ''Document uploaded successfully'', filename = ''notes.txt''\<rparr>"
        "\<lparr>file_name = ''notes.txt'', file_type = ''text/plain'', file_bytes = ''The sky is blue.''\<rparr>"
        "\<lparr>message = ''Document uploaded successfully'', filename = ''notes.txt''\<rparr>"
        "DocumentUpload_init
           \<lparr>selectedFile := Some \<lparr>file_name = ''notes.txt'', file_type = ''text/plain'',
                                   file_bytes = ''The sky is blue.''\<rparr>,
            fileInputValue := Some ''C:/fakepath/notes.txt''\<rparr>"
        handleUploadSuccess App_init]
  by (simp add: DocumentUpload_init_def App_init_def handleUploadSuccess_def or_else_def)

section \<open>Properties of QuestionAnswer\<close>

lemma trim_eq_Nil: "trim s = [] \<longleftrightarrow> (\<forall>c\<in>set s. isWhiteSpace c)"
proof -
  have "(\<forall>x\<in>set (dropWhile isWhiteSpace s). isWhiteSpace x) \<longleftrightarrow> (\<forall>c\<in>set s. isWhiteSpace c)"
  proof
    assume a: "\<forall>x\<in>set (dropWhile isWhiteSpace s). isWhiteSpace x"
    have "dropWhile isWhiteSpace s = []"
    proof (rule ccontr)
      assume n: "dropWhile isWhiteSpace s \<noteq> []"
      then have "\<not> isWhiteSpace (hd (dropWhile isWhiteSpace s))" by (rule hd_dropWhile)
      moreover have "hd (dropWhile isWhiteSpace s) \<in> set (dropWhile isWhiteSpace s)"
        using n by simp
      ultimately show False using a by blast
    qed
    then show "\<forall>c\<in>set s. isWhiteSpace c" by simp
  next
    assume "\<forall>c\<in>set s. isWhiteSpace c"
    then show "\<forall>x\<in>set (dropWhile isWhiteSpace s). isWhiteSpace x"
      by (meson set_dropWhileD)
  qed
  then show ?thesis
    by (simp add: trim_def)
qed

text \<open>
  C8. When the input value is empty or consists of white space only, or a request is in
  flight (\<^verbatim>\<open>isLoading\<close>), \<^verbatim>\<open>handleSubmit\<close> returns at its guard: it sends no request and
  leaves the component's state (messages, input value, loading flag) and the parent's
  state as they were. The submit button is disabled in exactly those states.
\<close>

theorem handleSubmit_guard_no_effect:
  "(\<forall>c\<in>set (inputValue st). isWhiteSpace c) \<or> isLoading st \<Longrightarrow>
     handleSubmit post cb c1 c2 (st, parent) = ((st, parent), [])
     \<and> handleSubmit_begin c1 st = (st, None) \<and> submit_disabled st"
  by (auto simp: handleSubmit_def handleSubmit_begin_def submit_disabled_def trim_eq_Nil)

theorem handleSubmit_guard_no_effect_witness:
  "handleSubmit (\<lambda>_. OtherFailure) (Some handleSourcesUpdate)
       \<lparr>date_now = 5, new_date = 5\<rparr> \<lparr>date_now = 9, new_date = 9\<rparr>
       (\<lparr>messages = [], inputValue = [CHR 0x20, CHR 0x09], isLoading = False\<rparr>, App_init)
     = ((\<lparr>messages = [], inputValue = [CHR 0x20, CHR 0x09], isLoading = False\<rparr>, App_init), [])
   \<and> handleSubmit (\<lambda>_. OtherFailure) (Some handleSourcesUpdate)
         \<lparr>date_now = 5, new_date = 5\<rparr> \<lparr>date_now = 9, new_date = 9\<rparr>
         (\<lparr>messages = [], inputValue = ''why?'', isLoading = True\<rparr>, App_init)
       = ((\<lparr>messages = [], inputValue = ''why?'', isLoading = True\<rparr>, App_init), [])"
proof -
  have h1:
    "(\<forall>c\<in>set (inputValue \<lparr>messages = [], inputValue = [CHR 0x20, CHR 0x09], isLoading = False\<rparr>).
        isWhiteSpace c)
     \<or> isLoading \<lparr>messages = [], inputValue = [CHR 0x20, CHR 0x09], isLoading = False\<rparr>"
    by (simp add: isWhiteSpace_def)
  have h2:
    "(\<forall>c\<in>set (inputValue \<lparr>messages = [], inputValue = ''why?'', isLoading = True\<rparr>). isWhiteSpace c)
     \<or> isLoading \<lparr>messages = [], inputValue = ''why?'', isLoading = True\<rparr>"
    by simp
  show ?thesis
    using
      handleSubmit_guard_no_effect
        [OF h1, of "\<lambda>_. OtherFailure" "Some handleSourcesUpdate" "\<lparr>date_now = 5, new_date = 5\<rparr>"
           "\<lparr>date_now = 9, new_date = 9\<rparr>" App_init]
      handleSubmit_guard_no_effect
        [OF h2, of "\<lambda>_. OtherFailure" "Some handleSourcesUpdate" "\<lparr>date_now = 5, new_date = 5\<rparr>"
           "\<lparr>date_now = 9, new_date = 9\<rparr>" App_init]
    by simp
qed

lemma handleSubmit_begin_prefix: "prefix (messages st) (messages (fst (handleSubmit_begin c st)))"
  by (simp add: handleSubmit_begin_def Let_def)

lemma handleSubmit_settle_prefix:
  "prefix (messages st) (messages (fst (handleSubmit_settle cb c r (st, p))))"
  by (simp add: handleSubmit_settle_def Let_def split: sum.splits)

lemma handleSubmit_prefix:
  "prefix (messages st) (messages (fst (fst (handleSubmit post cb c1 c2 (st, p)))))"
proof -
  obtain st1 q where b: "handleSubmit_begin c1 st = (st1, q)" by (metis surj_pair)
  have p1: "prefix (messages st) (messages st1)"
    using handleSubmit_begin_prefix [of st c1] b by simp
  show ?thesis
  proof (cases q)
    case None
    then show ?thesis using b p1 by (simp add: handleSubmit_def)
  next
    case (Some question)
    obtain result reqs where a: "askQuestion post question = (result, reqs)" by (metis surj_pair)
    have "prefix (messages st1) (messages (fst (handleSubmit_settle cb c2 result (st1, p))))"
      by (rule handleSubmit_settle_prefix)
    then show ?thesis using b Some a p1 by (auto simp: handleSubmit_def)
  qed
qed

lemma handleSubmit_begin_accepted:
  "\<not> (trim (inputValue st) = [] \<or> isLoading st) \<Longrightarrow>
     handleSubmit_begin c st =
       (st\<lparr>messages := messages st @
             [\<lparr>msg_id = toString (date_now c), msg_type = User, content = inputValue st,
               msg_sources = None, timestamp = new_date c\<rparr>],
           inputValue := [], isLoading := True\<rparr>, Some (inputValue st))"
  by (simp add: handleSubmit_begin_def Let_def)

lemma handleSubmit_accepted:
  assumes "\<not> (trim (inputValue st) = [] \<or> isLoading st)"
  shows "fst (handleSubmit post cb c1 c2 (st, parent)) =
     handleSubmit_settle cb c2 (fst (askQuestion post (inputValue st)))
       (st\<lparr>messages := messages st @
             [\<lparr>msg_id = toString (date_now c1), msg_type = User, content = inputValue st,
               msg_sources = None, timestamp = new_date c1\<rparr>],
           inputValue := [], isLoading := True\<rparr>, parent)"
proof -
  obtain result reqs where a: "askQuestion post (inputValue st) = (result, reqs)"
    by (metis surj_pair)
  show ?thesis
    unfolding handleSubmit_def
    by (simp only: handleSubmit_begin_accepted [OF assms] a prod.case option.case fst_conv)
qed

lemma handleSubmit_rejected:
  "trim (inputValue st) = [] \<or> isLoading st \<Longrightarrow>
     handleSubmit post cb c1 c2 (st, parent) = ((st, parent), [])"
  by (auto simp: handleSubmit_def handleSubmit_begin_def)

lemma handleSubmit_settle_messages:
  "messages (fst (handleSubmit_settle cb c result (st, parent))) =
     messages st @
       [\<lparr>msg_id = toString (date_now c + 1), msg_type = Assistant,
         content = (case result of
                      Inr response \<Rightarrow> answer response
                    | Inl (Error m) \<Rightarrow> m
                    | Inl NonError \<Rightarrow> ''Failed to get answer. Please try again.''),
         msg_sources = (case result of Inr response \<Rightarrow> sources response | Inl _ \<Rightarrow> None),
         timestamp = new_date c\<rparr>]"
proof (cases result)
  case (Inl err)
  then show ?thesis
    by (cases err) (simp_all add: handleSubmit_settle_def Let_def)
next
  case (Inr response)
  then show ?thesis
    by (simp add: handleSubmit_settle_def Let_def)
qed

lemma handleSubmit_settle_parent:
  "snd (handleSubmit_settle (Some cb) c result (st, parent)) =
     (case result of
        Inr response \<Rightarrow> (case sources response of None \<Rightarrow> parent | Some srcs \<Rightarrow> cb srcs parent)
      | Inl _ \<Rightarrow> parent)"
  by (cases result) (simp_all add: handleSubmit_settle_def Let_def)

lemma handleUpload_parent:
  "snd (fst (handleUpload post (Some cb) (st, parent))) =
     (case selectedFile st of
        None \<Rightarrow> parent
      | Some f \<Rightarrow>
          (case fst (uploadDocument post f) of
             Inr response \<Rightarrow> cb (filename response) parent
           | Inl _ \<Rightarrow> parent))"
proof (cases "selectedFile st")
  case None
  then show ?thesis by (simp add: handleUpload_def handleUpload_begin_def)
next
  case (Some f)
  obtain result reqs where a: "uploadDocument post f = (result, reqs)" by (metis surj_pair)
  show ?thesis using Some a
    by (cases result) (simp_all add: handleUpload_def handleUpload_begin_def handleUpload_settle_def)
qed

lemma step_messages_prefix: "prefix (messages (qa pg)) (messages (qa (step e pg)))"
proof (cases e)
  case (Submit c1 c2 out)
  obtain q a reqs where
    h: "handleSubmit (\<lambda>_. out) (Some handleSourcesUpdate) c1 c2 (qa pg, app pg) = ((q, a), reqs)"
    by (metis surj_pair)
  have "prefix (messages (qa pg)) (messages q)"
    using handleSubmit_prefix [of "qa pg" "\<lambda>_. out" "Some handleSourcesUpdate" c1 c2 "app pg"] h
    by simp
  then show ?thesis using Submit h by simp
next
  case (UploadClick out)
  obtain u a reqs where
    h: "handleUpload (\<lambda>_. out) (Some handleUploadSuccess) (upload pg, app pg) = ((u, a), reqs)"
    by (metis surj_pair)
  show ?thesis using UploadClick h by simp
qed (simp_all add: handleInputChange_def)

lemma run_messages_prefix: "prefix (messages (qa pg)) (messages (qa (run es pg)))"
proof (induction es arbitrary: pg)
  case Nil
  show ?case by simp
next
  case (Cons e es)
  have a: "prefix (messages (qa pg)) (messages (qa (step e pg)))" by (rule step_messages_prefix)
  have b: "prefix (messages (qa (step e pg))) (messages (qa (run es (step e pg))))"
    by (rule Cons.IH)
  show ?case using prefix_order.trans [OF a b] by simp
qed

text \<open>
  C9. The messages list only grows at its end: after any sequence of events the earlier
  list is a prefix of the later one. A submission that passes the guard sends one request
  for the submitted question and appends exactly two messages: the user message with the
  submitted question, then one assistant message, whose content is the returned answer
  with the response's sources on success, and the thrown error's message without sources
  on failure (what \<^verbatim>\<open>askQuestion\<close> throws is always an \<^verbatim>\<open>Error\<close>). While that request is
  in flight a further submit is stopped by the guard, so it appends nothing.
\<close>

theorem messages_append_only_two_per_submission:
  "prefix (messages (qa pg)) (messages (qa (run es pg)))
   \<and> (\<not> (trim (inputValue st) = [] \<or> isLoading st) \<longrightarrow>
        messages (fst (fst (handleSubmit post cb c1 c2 (st, parent)))) =
          messages st @
            [\<lparr>msg_id = toString (date_now c1), msg_type = User, content = inputValue st,
              msg_sources = None, timestamp = new_date c1\<rparr>,
             \<lparr>msg_id = toString (date_now c2 + 1), msg_type = Assistant,
              content = (case fst (askQuestion post (inputValue st)) of
                           Inr response \<Rightarrow> answer response
                         | Inl (Error m) \<Rightarrow> m
                         | Inl NonError \<Rightarrow> ''Failed to get answer. Please try again.''),
              msg_sources = (case fst (askQuestion post (inputValue st)) of
                               Inr response \<Rightarrow> sources response
                             | Inl _ \<Rightarrow> None),
              timestamp = new_date c2\<rparr>]
        \<and> fst (askQuestion post (inputValue st)) \<noteq> Inl NonError
        \<and> snd (handleSubmit post cb c1 c2 (st, parent)) = [ask_request (inputValue st)]
        \<and> handleSubmit_begin c3 (fst (handleSubmit_begin c1 st))
            = (fst (handleSubmit_begin c1 st), None))"
proof -
  have two: "messages (fst (fst (handleSubmit post cb c1 c2 (st, parent)))) =
          messages st @
            [\<lparr>msg_id = toString (date_now c1), msg_type = User, content = inputValue st,
              msg_sources = None, timestamp = new_date c1\<rparr>,
             \<lparr>msg_id = toString (date_now c2 + 1), msg_type = Assistant,
              content = (case fst (askQuestion post (inputValue st)) of
                           Inr response \<Rightarrow> answer response
                         | Inl (Error m) \<Rightarrow> m
                         | Inl NonError \<Rightarrow> ''Failed to get answer. Please try again.''),
              msg_sources = (case fst (askQuestion post (inputValue st)) of
                               Inr response \<Rightarrow> sources response
                             | Inl _ \<Rightarrow> None),
              timestamp = new_date c2\<rparr>]"
    if acc: "\<not> (trim (inputValue st) = [] \<or> isLoading st)"
    by (simp add: handleSubmit_accepted [OF acc] handleSubmit_settle_messages)
  have again: "handleSubmit_begin c3 (fst (handleSubmit_begin c1 st))
            = (fst (handleSubmit_begin c1 st), None)"
    if acc: "\<not> (trim (inputValue st) = [] \<or> isLoading st)"
    by (simp add: handleSubmit_begin_accepted [OF acc]) (simp add: handleSubmit_begin_def)
  have sent1: "snd (handleSubmit post cb c1 c2 (st, parent)) = [ask_request (inputValue st)]"
    if acc: "\<not> (trim (inputValue st) = [] \<or> isLoading st)"
    using acc by (simp only: handleSubmit_sent if_False)
  show ?thesis
  proof (intro conjI impI)
    show "prefix (messages (qa pg)) (messages (qa (run es pg)))"
      by (rule run_messages_prefix)
  next
    assume "\<not> (trim (inputValue st) = [] \<or> isLoading st)"
    then show "messages (fst (fst (handleSubmit post cb c1 c2 (st, parent)))) =
          messages st @
            [\<lparr>msg_id = toString (date_now c1), msg_type = User, content = inputValue st,
              msg_sources = None, timestamp = new_date c1\<rparr>,
             \<lparr>msg_id = toString (date_now c2 + 1), msg_type = Assistant,
              content = (case fst (askQuestion post (inputValue st)) of
                           Inr response \<Rightarrow> answer response
                         | Inl (Error m) \<Rightarrow> m
                         | Inl NonError \<Rightarrow> ''Failed to get answer. Please try again.''),
              msg_sources = (case fst (askQuestion post (inputValue st)) of
                               Inr response \<Rightarrow> sources response
                             | Inl _ \<Rightarrow> None),
              timestamp = new_date c2\<rparr>]"
      by (rule two)
  next
    show "fst (askQuestion post (inputValue st)) \<noteq> Inl NonError"
      by (rule askQuestion_throws_Error)
  next
    assume "\<not> (trim (inputValue st) = [] \<or> isLoading st)"
    then show "snd (handleSubmit post cb c1 c2 (st, parent)) = [ask_request (inputValue st)]"
      by (rule sent1)
  next
    assume "\<not> (trim (inputValue st) = [] \<or> isLoading st)"
    then show "handleSubmit_begin c3 (fst (handleSubmit_begin c1 st))
            = (fst (handleSubmit_begin c1 st), None)"
      by (rule again)
  qed
qed

theorem messages_append_only_two_per_submission_witness:
  "messages (fst (fst (handleSubmit
       (\<lambda>_. Resolved \<lparr>answer = ''blue'', sources = Some []\<rparr>) (Some handleSourcesUpdate)
       \<lparr>date_now = 5, new_date = 6\<rparr> \<lparr>date_now = 8, new_date = 9\<rparr>
       (\<lparr>messages = [], inputValue = ''why?'', isLoading = False\<rparr>, App_init)))) =
     [\<lparr>msg_id = toString 5, msg_type = User, content = ''why?'', msg_sources = None,
       timestamp = 6\<rparr>,
      \<lparr>msg_id = toString (8 + 1), msg_type = Assistant, content = ''blue'',
       msg_sources = Some [], timestamp = 9\<rparr>]
   \<and> messages (fst (fst (handleSubmit
         (\<lambda>_. AxiosError None) (Some handleSourcesUpdate)
         \<lparr>date_now = 5, new_date = 6\<rparr> \<lparr>date_now = 8, new_date = 9\<rparr>
         (\<lparr>messages = [], inputValue = ''why?'', isLoading = False\<rparr>, App_init)))) =
     [\<lparr>msg_id = toString 5, msg_type = User, content = ''why?'', msg_sources = None,
       timestamp = 6\<rparr>,
      \<lparr>msg_id = toString (8 + 1), msg_type = Assistant, content = ''Failed to get answer'',
       msg_sources = None, timestamp = 9\<rparr>]"
proof -
  have acc: "\<not> (trim (inputValue \<lparr>messages = [], inputValue = ''why?'', isLoading = False\<rparr>) = []
               \<or> isLoading \<lparr>messages = [], inputValue = ''why?'', isLoading = False\<rparr>)"
    by (simp add: trim_def isWhiteSpace_def)
  show ?thesis
    using acc
      messages_append_only_two_per_submission
        [of _ _ "\<lparr>messages = [], inputValue = ''why?'', isLoading = False\<rparr>"
            "\<lambda>_. Resolved \<lparr>answer = ''blue'', sources = Some []\<rparr>" "Some handleSourcesUpdate"
            "\<lparr>date_now = 5, new_date = 6\<rparr>" "\<lparr>date_now = 8, new_date = 9\<rparr>" App_init]
      messages_append_only_two_per_submission
        [of _ _ "\<lparr>messages = [], inputValue = ''why?'', isLoading = False\<rparr>"
            "\<lambda>_. AxiosError None" "Some handleSourcesUpdate"
            "\<lparr>date_now = 5, new_date = 6\<rparr>" "\<lparr>date_now = 8, new_date = 9\<rparr>" App_init]
    by (simp add: askQuestion_fst server_error_def opt_or_else_def)
qed

section \<open>Properties of App\<close>

lemma handleSubmit_parent:
  "snd (fst (handleSubmit post (Some cb) c1 c2 (st, parent))) =
     (if trim (inputValue st) = [] \<or> isLoading st then parent
      else (case fst (askQuestion post (inputValue st)) of
              Inr response \<Rightarrow>
                (case sources response of None \<Rightarrow> parent | Some srcs \<Rightarrow> cb srcs parent)
            | Inl _ \<Rightarrow> parent))"
proof (cases "trim (inputValue st) = [] \<or> isLoading st")
  case True
  then show ?thesis
    using handleSubmit_rejected [of st post "Some cb" c1 c2 parent] by simp
next
  case False
  then show ?thesis
    by (simp add: handleSubmit_accepted [OF False] handleSubmit_settle_parent)
qed

lemma step_uploadedFiles:
  "uploadedFiles (app (step e pg)) =
     (case e of
        UploadClick out \<Rightarrow>
          (case selectedFile (upload pg) of
             None \<Rightarrow> uploadedFiles (app pg)
           | Some f \<Rightarrow>
               (case out of
                  Resolved response \<Rightarrow> uploadedFiles (app pg) @ [filename response]
                | _ \<Rightarrow> uploadedFiles (app pg)))
      | _ \<Rightarrow> uploadedFiles (app pg))"
proof (cases e)
  case (UploadClick out)
  obtain u a reqs where
    h: "handleUpload (\<lambda>_. out) (Some handleUploadSuccess) (upload pg, app pg) = ((u, a), reqs)"
    by (metis surj_pair)
  have "a = (case selectedFile (upload pg) of
               None \<Rightarrow> app pg
             | Some f \<Rightarrow>
                 (case fst (uploadDocument (\<lambda>_. out) f) of
                    Inr response \<Rightarrow> handleUploadSuccess (filename response) (app pg)
                  | Inl _ \<Rightarrow> app pg))"
    using handleUpload_parent [of "\<lambda>_. out" handleUploadSuccess "upload pg" "app pg"]
    by (simp add: h)
  then show ?thesis using UploadClick h
    by (simp add: uploadDocument_fst handleUploadSuccess_def split: option.splits outcome.splits)
next
  case (Submit c1 c2 out)
  obtain q a reqs where
    h: "handleSubmit (\<lambda>_. out) (Some handleSourcesUpdate) c1 c2 (qa pg, app pg) = ((q, a), reqs)"
    by (metis surj_pair)
  have "a = snd (fst (handleSubmit (\<lambda>_. out) (Some handleSourcesUpdate) c1 c2 (qa pg, app pg)))"
    by (simp add: h)
  then have "uploadedFiles a = uploadedFiles (app pg)"
    by (simp add: handleSubmit_parent handleSourcesUpdate_def split: sum.splits option.splits)
  then show ?thesis using Submit h by simp
qed simp_all

lemma step_uploadedFiles_prefix:
  "prefix (uploadedFiles (app pg)) (uploadedFiles (app (step e pg)))"
  by (simp add: step_uploadedFiles del: step.simps
      split: event.splits option.splits outcome.splits)

lemma run_uploadedFiles_prefix:
  "prefix (uploadedFiles (app pg)) (uploadedFiles (app (run es pg)))"
proof (induction es arbitrary: pg)
  case Nil
  show ?case by simp
next
  case (Cons e es)
  have a: "prefix (uploadedFiles (app pg)) (uploadedFiles (app (step e pg)))"
    by (rule step_uploadedFiles_prefix)
  have b: "prefix (uploadedFiles (app (step e pg))) (uploadedFiles (app (run es (step e pg))))"
    by (rule Cons.IH)
  show ?case using prefix_order.trans [OF a b] by simp
qed

lemma step_submit_currentSources:
  assumes acc: "\<not> (trim (inputValue (qa pg)) = [] \<or> isLoading (qa pg))"
    and src: "sources r = Some srcs"
  shows "currentSources (app (step (Submit c1 c2 (Resolved r)) pg)) = srcs"
proof -
  obtain q a reqs where
    h: "handleSubmit (\<lambda>_. Resolved r) (Some handleSourcesUpdate) c1 c2 (qa pg, app pg)
          = ((q, a), reqs)"
    by (metis surj_pair)
  have "a = snd (fst (handleSubmit (\<lambda>_. Resolved r) (Some handleSourcesUpdate) c1 c2
                        (qa pg, app pg)))"
    by (simp add: h)
  then have "a = handleSourcesUpdate srcs (app pg)"
    using acc src by (simp add: handleSubmit_parent askQuestion_fst)
  then show ?thesis using h by (simp add: handleSourcesUpdate_def)
qed

text \<open>
  C10. When a submission passes the guard and its request resolves with a response that
  has a \<^verbatim>\<open>sources\<close> field, \<^verbatim>\<open>currentSources\<close> becomes exactly that list, whatever it held
  before. An upload of the selected file that resolves appends exactly the returned file
  name to \<^verbatim>\<open>uploadedFiles\<close>; no other event changes that list, so over any sequence of
  events it only grows at its end.
\<close>

theorem app_sources_replaced_files_appended:
  "(\<not> (trim (inputValue (qa pg)) = [] \<or> isLoading (qa pg)) \<and> sources r = Some srcs \<longrightarrow>
      currentSources (app (step (Submit c1 c2 (Resolved r)) pg)) = srcs)
   \<and> (selectedFile (upload pg) = Some f \<longrightarrow>
        uploadedFiles (app (step (UploadClick (Resolved u)) pg)) = uploadedFiles (app pg) @ [filename u])
   \<and> ((\<forall>v. e \<noteq> UploadClick (Resolved v)) \<longrightarrow>
        uploadedFiles (app (step e pg)) = uploadedFiles (app pg))
   \<and> prefix (uploadedFiles (app pg)) (uploadedFiles (app (run es pg)))"
proof -
  have a: "\<not> (trim (inputValue (qa pg)) = [] \<or> isLoading (qa pg)) \<and> sources r = Some srcs \<longrightarrow>
      currentSources (app (step (Submit c1 c2 (Resolved r)) pg)) = srcs"
    using step_submit_currentSources [of pg r srcs c1 c2] by blast
  have b: "selectedFile (upload pg) = Some f \<longrightarrow>
        uploadedFiles (app (step (UploadClick (Resolved u)) pg)) = uploadedFiles (app pg) @ [filename u]"
    by (simp add: step_uploadedFiles del: step.simps)
  have c: "(\<forall>v. e \<noteq> UploadClick (Resolved v)) \<longrightarrow>
        uploadedFiles (app (step e pg)) = uploadedFiles (app pg)"
    by (simp add: step_uploadedFiles del: step.simps
        split: event.splits option.splits outcome.splits)
  show ?thesis
    by (intro conjI a b c run_uploadedFiles_prefix)
qed

theorem app_sources_replaced_files_appended_witness:
  "currentSources (app (step
       (Submit \<lparr>date_now = 5, new_date = 6\<rparr> \<lparr>date_now = 8, new_date = 9\<rparr>
          (Resolved \<lparr>answer = ''blue'',
                      sources = Some [\<lparr>source_text = ''The sky is blue.'', metadata = None\<rparr>]\<rparr>))
       (page_init\<lparr>app := \<lparr>currentSources = [\<lparr>source_text = ''old'', metadata = None\<rparr>],
                             uploadedFiles = [''a.pdf'']\<rparr>,
                   qa := \<lparr>messages = [], inputValue = ''why?'', isLoading = False\<rparr>\<rparr>)))
     = [\<lparr>source_text = ''The sky is blue.'', metadata = None\<rparr>]
   \<and> uploadedFiles (app (step
         (UploadClick (Resolved \<lparr>message = ''ok'', filename = ''notes.txt''\<rparr>))
         (page_init\<lparr>app := \<lparr>currentSources = [], uploadedFiles = [''a.pdf'']\<rparr>,
                     upload := DocumentUpload_init
                       \<lparr>selectedFile := Some \<lparr>file_name = ''notes.txt'', file_type = ''text/plain'',
                                               file_bytes = ''The sky is blue.''\<rparr>\<rparr>\<rparr>)))
     = [''a.pdf'', ''notes.txt'']
   \<and> uploadedFiles (app (step (InputChange ''why?'')
         (page_init\<lparr>app := \<lparr>currentSources = [], uploadedFiles = [''a.pdf'']\<rparr>\<rparr>)))
     = [''a.pdf'']"
proof -
  have acc:
    "\<not> (trim (inputValue (qa (page_init
          \<lparr>app := \<lparr>currentSources = [\<lparr>source_text = ''old'', metadata = None\<rparr>],
                       uploadedFiles = [''a.pdf'']\<rparr>,
           qa := \<lparr>messages = [], inputValue = ''why?'', isLoading = False\<rparr>\<rparr>))) = []
        \<or> isLoading (qa (page_init
          \<lparr>app := \<lparr>currentSources = [\<lparr>source_text = ''old'', metadata = None\<rparr>],
                       uploadedFiles = [''a.pdf'']\<rparr>,
           qa := \<lparr>messages = [], inputValue = ''why?'', isLoading = False\<rparr>\<rparr>)))"
    by (simp add: trim_def isWhiteSpace_def)
  have ne: "\<forall>v. InputChange ''why?'' \<noteq> UploadClick (Resolved v)"
    by simp
  show ?thesis
    using acc ne
      app_sources_replaced_files_appended
        [of "page_init
              \<lparr>app := \<lparr>currentSources = [\<lparr>source_text = ''old'', metadata = None\<rparr>],
                           uploadedFiles = [''a.pdf'']\<rparr>,
               qa := \<lparr>messages = [], inputValue = ''why?'', isLoading = False\<rparr>\<rparr>"
            "\<lparr>answer = ''blue'',
              sources = Some [\<lparr>source_text = ''The sky is blue.'', metadata = None\<rparr>]\<rparr>"
            "[\<lparr>source_text = ''The sky is blue.'', metadata = None\<rparr>]"
            "\<lparr>date_now = 5, new_date = 6\<rparr>" "\<lparr>date_now = 8, new_date = 9\<rparr>"]
      app_sources_replaced_files_appended
        [of "page_init\<lparr>app := \<lparr>currentSources = [], uploadedFiles = [''a.pdf'']\<rparr>,
                       upload := DocumentUpload_init
                         \<lparr>selectedFile := Some \<lparr>file_name = ''notes.txt'', file_type = ''text/plain'',
                                                 file_bytes = ''The sky is blue.''\<rparr>\<rparr>\<rparr>"
            _ _ _ _
            "\<lparr>file_name = ''notes.txt'', file_type = ''text/plain'', file_bytes = ''The sky is blue.''\<rparr>"
            "\<lparr>message = ''ok'', filename = ''notes.txt''\<rparr>"]
      app_sources_replaced_files_appended
        [of "page_init\<lparr>app := \<lparr>currentSources = [], uploadedFiles = [''a.pdf'']\<rparr>\<rparr>"
            _ _ _ _ _ _ "InputChange ''why?''"]
    by (simp add: page_init_def DocumentUpload_init_def del: step.simps)
qed

section \<open>Properties of the chunker\<close>

lemma ceil_div_nat:
  fixes m d :: nat
  assumes "0 < d"
  shows "\<lceil>real m / real d\<rceil> = int ((m + d - 1) div d)"
proof (rule ceiling_unique)
  let ?q = "(m + d - 1) div d"
  have le: "?q * d \<le> m + d - 1" by simp
  have lt: "m + d - 1 < ?q * d + d"
    using assms dividend_less_div_times [of d "m + d - 1"] by (simp add: mult.commute add.commute)
  have a: "?q * d + 1 \<le> m + d" using le assms by linarith
  have b: "m \<le> ?q * d" using lt assms by linarith
  have ra: "real ?q * real d + 1 \<le> real m + real d"
    using a by (metis of_nat_1 of_nat_add of_nat_le_iff of_nat_mult)
  have rb: "real m \<le> real ?q * real d"
    using b by (metis of_nat_le_iff of_nat_mult)
  have dpos: "0 < real d" using assms by simp
  have "(real ?q - 1) * real d < real m"
    using ra dpos by (simp add: algebra_simps)
  then show "real_of_int (int ?q) - 1 < real m / real d"
    using dpos by (simp add: pos_less_divide_eq)
  show "real m / real d \<le> real_of_int (int ?q)"
    using rb dpos by (simp add: pos_divide_le_eq)
qed

lemma windows_length:
  "ov < csize \<Longrightarrow> s + ov < length tx \<Longrightarrow>
     length (windows tx csize ov lb s idx) = (length tx - s - ov + (csize - ov) - 1) div (csize - ov)"
proof (induction tx csize ov lb s idx rule: windows.induct)
  case (1 tx csize ov lb s idx)
  let ?d = "csize - ov"
  let ?m = "length tx - s - ov"
  have dpos: "0 < ?d" using "1.prems" by simp
  have mpos: "0 < ?m" using "1.prems" by simp
  show ?case
  proof (cases "length tx \<le> s + csize")
    case True
    have "?m \<le> ?d" using True "1.prems" by linarith
    then have "(?m + ?d - 1) div ?d = 1"
      using mpos dpos by (simp add: div_eq_dividend_iff Suc_le_eq div_nat_eqI)
    then show ?thesis using True by (simp add: windows.simps [of tx csize ov lb s idx])
  next
    case False
    have g: "\<not> (csize \<le> ov \<or> length tx \<le> s + csize)" using False "1.prems" by simp
    have ih: "length (windows tx csize ov lb (s + ?d) (idx + 1)) =
        (length tx - (s + ?d) - ov + ?d - 1) div ?d"
      using "1.IH" [OF g] "1.prems" False by simp
    have "length tx - (s + ?d) - ov + ?d = ?m" using False "1.prems" by linarith
    moreover have "(?m + ?d - 1) div ?d = Suc ((?m - 1) div ?d)"
      using dpos mpos by (metis Nat.add_diff_assoc2 Suc_leI add.commute div_add_self1 less_numeral_extra(3) One_nat_def plus_1_eq_Suc)
    ultimately show ?thesis
      using g ih by (simp add: windows.simps [of tx csize ov lb s idx])
  qed
qed

lemma nearest_boundary_bounds:
  "nearest_boundary tx e k = Some p \<Longrightarrow> p \<le> e \<and> e \<le> p + k"
proof (induction k arbitrary: e)
  case 0
  then show ?case by (simp split: if_splits)
next
  case (Suc k)
  show ?case
  proof (cases "is_boundary tx e")
    case True
    then show ?thesis using Suc.prems by simp
  next
    case False
    then have e: "e \<noteq> 0" and r: "nearest_boundary tx (e - 1) k = Some p"
      using Suc.prems by (auto split: if_splits)
    from Suc.IH [OF r] e show ?thesis by linarith
  qed
qed

lemma snap_bounds:
  "snap tx s e lb \<le> e \<and> e \<le> snap tx s e lb + lb \<and> (s < e \<longrightarrow> s < snap tx s e lb)"
proof (cases "nearest_boundary tx e lb")
  case None
  then show ?thesis by (simp add: snap_def)
next
  case (Some p)
  then show ?thesis
    using nearest_boundary_bounds [OF Some] by (simp add: snap_def)
qed

lemma windows_not_Nil: "windows tx csize ov lb s idx \<noteq> []"
  by (simp add: windows.simps [of tx csize ov lb s idx])

lemma windows_first_start: "chunk_start (windows tx csize ov lb s idx ! 0) = s"
  by (simp add: windows.simps [of tx csize ov lb s idx] mk_chunk_def)

lemma windows_consecutive:
  "ov < csize \<Longrightarrow> Suc k < length (windows tx csize ov lb s idx) \<Longrightarrow>
     chunk_start (windows tx csize ov lb s idx ! Suc k)
       = chunk_start (windows tx csize ov lb s idx ! k) + (csize - ov)
     \<and> chunk_end (windows tx csize ov lb s idx ! k)
         \<le> chunk_start (windows tx csize ov lb s idx ! k) + csize
     \<and> chunk_start (windows tx csize ov lb s idx ! k) + csize
         \<le> chunk_end (windows tx csize ov lb s idx ! k) + lb"
proof (induction tx csize ov lb s idx arbitrary: k rule: windows.induct)
  case (1 tx csize ov lb s idx)
  show ?case
  proof (cases "csize \<le> ov \<or> length tx \<le> s + csize")
    case True
    then have "length (windows tx csize ov lb s idx) = 1"
      by (simp add: windows.simps [of tx csize ov lb s idx])
    then show ?thesis using "1.prems" by simp
  next
    case False
    let ?rest = "windows tx csize ov lb (s + (csize - ov)) (idx + 1)"
    have unf: "windows tx csize ov lb s idx
        = mk_chunk tx idx s (snap tx s (s + csize) lb) # ?rest"
      using False by (simp add: windows.simps [of tx csize ov lb s idx])
    show ?thesis
    proof (cases k)
      case 0
      have "chunk_start (?rest ! 0) = s + (csize - ov)" by (rule windows_first_start)
      then show ?thesis
        using 0 unf snap_bounds [of tx s "s + csize" lb] by (simp add: mk_chunk_def)
    next
      case (Suc j)
      have len: "Suc j < length ?rest" using "1.prems" unf Suc by simp
      from "1.IH" [OF False "1.prems"(1) len] show ?thesis
        using Suc unf by simp
    qed
  qed
qed

lemma windows_chunks_nonempty:
  "ov < csize \<Longrightarrow> s < length tx \<Longrightarrow>
     \<forall>c\<in>set (windows tx csize ov lb s idx). chunk_text c \<noteq> []"
proof (induction tx csize ov lb s idx rule: windows.induct)
  case (1 tx csize ov lb s idx)
  show ?case
  proof (cases "csize \<le> ov \<or> length tx \<le> s + csize")
    case True
    then show ?thesis using "1.prems"
      by (simp add: windows.simps [of tx csize ov lb s idx] mk_chunk_def)
  next
    case False
    have sn: "s < snap tx s (s + csize) lb"
      using snap_bounds [of tx s "s + csize" lb] "1.prems" by simp
    have "\<forall>c\<in>set (windows tx csize ov lb (s + (csize - ov)) (idx + 1)). chunk_text c \<noteq> []"
      using "1.IH" [OF False] "1.prems" False by simp
    then show ?thesis using False sn "1.prems"
      by (simp add: windows.simps [of tx csize ov lb s idx] mk_chunk_def)
  qed
qed

lemma chunk_valid_eq:
  assumes "0 < cs" "0 \<le> ov" "ov < cs" "\<not> list_all isWhiteSpace tx"
  shows "chunk tx cs ov lb = Inr (windows tx (nat cs) (nat ov) lb 0 0)"
proof -
  have "tx \<noteq> []" using assms(4) by auto
  then have "\<forall>c\<in>set (windows tx (nat cs) (nat ov) lb 0 0). chunk_text c \<noteq> []"
    using windows_chunks_nonempty [of "nat ov" "nat cs" 0 tx lb 0] assms by simp
  then have "filter (\<lambda>c. chunk_text c \<noteq> []) (windows tx (nat cs) (nat ov) lb 0 0)
      = windows tx (nat cs) (nat ov) lb 0 0"
    by (simp add: filter_id_conv)
  then show ?thesis using assms by (simp add: chunk_def)
qed

lemma expected_chunk_count_nat:
  assumes "0 \<le> ov" "ov < cs" "ov < int n"
  shows "expected_chunk_count n cs ov
     = int ((n - nat ov + (nat cs - nat ov) - 1) div (nat cs - nat ov))"
proof -
  have d: "0 < nat cs - nat ov" using assms by linarith
  have a: "real n - real_of_int ov = real (n - nat ov)"
    using assms by (simp add: of_nat_diff)
  have b: "real_of_int cs - real_of_int ov = real (nat cs - nat ov)"
    using assms by (simp add: of_nat_diff)
  show ?thesis
    unfolding expected_chunk_count_def a b by (rule ceil_div_nat [OF d])
qed

text \<open>
  C6, as stated, fails for a text no longer than the overlap: the two-character text
  \<^verbatim>\<open>ab\<close> with \<^verbatim>\<open>chunk_size = 5\<close> and \<^verbatim>\<open>overlap = 3\<close> is shorter than the chunk size and
  so gives one chunk, with no boundary snapped, while the formula gives
  \<open>\<lceil>(2 - 3) / (5 - 3)\<rceil> = 0\<close>.
\<close>

theorem chunk_count_short_text_counterexample:
  "chunk ''ab'' 5 3 0
     = Inr [\<lparr>chunk_index = 0, chunk_start = 0, chunk_end = 2, chunk_text = ''ab''\<rparr>]
   \<and> expected_chunk_count (length ''ab'') 5 3 = 0
   \<and> int (length [\<lparr>chunk_index = 0, chunk_start = 0, chunk_end = 2, chunk_text = ''ab''\<rparr>])
       \<noteq> expected_chunk_count (length ''ab'') 5 3"
proof -
  have c: "chunk ''ab'' 5 3 0
     = Inr [\<lparr>chunk_index = 0, chunk_start = 0, chunk_end = 2, chunk_text = ''ab''\<rparr>]"
    by code_simp
  have e: "expected_chunk_count (length ''ab'') 5 3 = 0"
    by (simp add: expected_chunk_count_def ceiling_eq_iff)
  show ?thesis using c e by simp
qed

text \<open>
  C6, amended. A configuration that violates \<^verbatim>\<open>chunk_size > 0\<close>, \<^verbatim>\<open>0 \<le> overlap < chunk_size\<close>
  fails with \<^verbatim>\<open>InvalidConfiguration\<close>. A valid one returns chunks in which each chunk starts
  \<^verbatim>\<open>chunk_size - overlap\<close> after the one before, and the offset ranges of consecutive
  chunks overlap by the configured overlap less the snap adjustment of the earlier chunk's
  end, which is at most the lookback (so by exactly the overlap when nothing is snapped).
  For a text that is longer than the overlap and not white space only, the number of
  chunks is \<open>\<lceil>(len - overlap) / (chunk_size - overlap)\<rceil>\<close>.
\<close>

theorem chunk_overlap_and_count:
  "(\<not> (0 < cs \<and> 0 \<le> ov \<and> ov < cs) \<longrightarrow> chunk tx cs ov lb = Inl InvalidConfiguration)
   \<and> (0 < cs \<and> 0 \<le> ov \<and> ov < cs \<longrightarrow>
        (\<exists>chunks. chunk tx cs ov lb = Inr chunks
           \<and> (\<forall>k. Suc k < length chunks \<longrightarrow>
                 int (chunk_start (chunks ! Suc k)) = int (chunk_start (chunks ! k)) + (cs - ov)
               \<and> int (chunk_end (chunks ! k)) - int (chunk_start (chunks ! Suc k)) \<le> ov
               \<and> ov - int lb \<le> int (chunk_end (chunks ! k)) - int (chunk_start (chunks ! Suc k)))
           \<and> (\<not> list_all isWhiteSpace tx \<and> ov < int (length tx) \<longrightarrow>
                 int (length chunks) = expected_chunk_count (length tx) cs ov)))"
proof (intro conjI impI)
  assume "\<not> (0 < cs \<and> 0 \<le> ov \<and> ov < cs)"
  then show "chunk tx cs ov lb = Inl InvalidConfiguration"
    by (simp add: chunk_def)
next
  assume v: "0 < cs \<and> 0 \<le> ov \<and> ov < cs"
  show "\<exists>chunks. chunk tx cs ov lb = Inr chunks
           \<and> (\<forall>k. Suc k < length chunks \<longrightarrow>
                 int (chunk_start (chunks ! Suc k)) = int (chunk_start (chunks ! k)) + (cs - ov)
               \<and> int (chunk_end (chunks ! k)) - int (chunk_start (chunks ! Suc k)) \<le> ov
               \<and> ov - int lb \<le> int (chunk_end (chunks ! k)) - int (chunk_start (chunks ! Suc k)))
           \<and> (\<not> list_all isWhiteSpace tx \<and> ov < int (length tx) \<longrightarrow>
                 int (length chunks) = expected_chunk_count (length tx) cs ov)"
  proof (cases "list_all isWhiteSpace tx")
    case True
    then have "chunk tx cs ov lb = Inr []" using v by (simp add: chunk_def)
    then show ?thesis using True by simp
  next
    case False
    let ?w = "windows tx (nat cs) (nat ov) lb 0 0"
    have eq: "chunk tx cs ov lb = Inr ?w"
      using chunk_valid_eq [of cs ov tx lb] v False by simp
    have cons: "int (chunk_start (?w ! Suc k)) = int (chunk_start (?w ! k)) + (cs - ov)
               \<and> int (chunk_end (?w ! k)) - int (chunk_start (?w ! Suc k)) \<le> ov
               \<and> ov - int lb \<le> int (chunk_end (?w ! k)) - int (chunk_start (?w ! Suc k))"
      if k: "Suc k < length ?w" for k
    proof -
      have lt: "nat ov < nat cs" using v by linarith
      from windows_consecutive [OF lt k]
      have s: "chunk_start (?w ! Suc k) = chunk_start (?w ! k) + (nat cs - nat ov)"
        and e1: "chunk_end (?w ! k) \<le> chunk_start (?w ! k) + nat cs"
        and e2: "chunk_start (?w ! k) + nat cs \<le> chunk_end (?w ! k) + lb"
        by simp_all
      have d: "int (nat cs - nat ov) = cs - ov" using v by linarith
      have c: "int (nat cs) = cs" using v by simp
      show ?thesis using s e1 e2 d c v by linarith
    qed
    have cnt: "int (length ?w) = expected_chunk_count (length tx) cs ov"
      if l: "ov < int (length tx)"
    proof -
      have lt: "nat ov < nat cs" using v by linarith
      have l': "0 + nat ov < length tx" using l v by linarith
      have L: "length ?w = (length tx - nat ov + (nat cs - nat ov) - 1) div (nat cs - nat ov)"
        using windows_length [OF lt l'] by (simp only: diff_zero)
      have E: "expected_chunk_count (length tx) cs ov
          = int ((length tx - nat ov + (nat cs - nat ov) - 1) div (nat cs - nat ov))"
        using expected_chunk_count_nat [of ov cs "length tx"] v l by blast
      show ?thesis by (simp only: L E)
    qed
    show ?thesis using eq cons cnt by blast
  qed
qed

theorem chunk_overlap_and_count_witness:
  "chunk ''The sky is blue. Grass is green.'' 20 5 4 =
     Inr [\<lparr>chunk_index = 0, chunk_start = 0, chunk_end = 17, chunk_text = ''The sky is blue. ''\<rparr>,
          \<lparr>chunk_index = 1, chunk_start = 15, chunk_end = 32, chunk_text = ''. Grass is green.''\<rparr>]
   \<and> int 17 - int 15 \<le> (5::int) \<and> (5::int) - int 4 \<le> int 17 - int 15
   \<and> expected_chunk_count (length ''The sky is blue. Grass is green.'') 20 5 = 2
   \<and> chunk ''abc'' 0 0 4 = Inl InvalidConfiguration"
proof -
  let ?T = "''The sky is blue. Grass is green.''"
  let ?c0 = "\<lparr>chunk_index = 0, chunk_start = 0, chunk_end = 17, chunk_text = ''The sky is blue. ''\<rparr>"
  let ?c1 = "\<lparr>chunk_index = 1, chunk_start = 15, chunk_end = 32, chunk_text = ''. Grass is green.''\<rparr>"
  have ev: "chunk ?T 20 5 4 = Inr [?c0, ?c1]"
    by code_simp
  have v: "0 < (20::int) \<and> 0 \<le> (5::int) \<and> (5::int) < 20"
    by simp
  have nw: "\<not> list_all isWhiteSpace ?T \<and> 5 < int (length ?T)"
    by (simp add: isWhiteSpace_def)
  from chunk_overlap_and_count [of 20 5 ?T 4, THEN conjunct2, THEN mp, OF v]
  obtain chunks where c: "chunk ?T 20 5 4 = Inr chunks"
    and k: "\<forall>k. Suc k < length chunks \<longrightarrow>
                 int (chunk_start (chunks ! Suc k)) = int (chunk_start (chunks ! k)) + (20 - 5)
               \<and> int (chunk_end (chunks ! k)) - int (chunk_start (chunks ! Suc k)) \<le> 5
               \<and> 5 - int 4 \<le> int (chunk_end (chunks ! k)) - int (chunk_start (chunks ! Suc k))"
    and n: "\<not> list_all isWhiteSpace ?T \<and> 5 < int (length ?T) \<longrightarrow>
                 int (length chunks) = expected_chunk_count (length ?T) 20 5"
    by blast
  have eq: "chunks = [?c0, ?c1]" using ev c by simp
  have k0: "int (chunk_end (chunks ! 0)) - int (chunk_start (chunks ! Suc 0)) \<le> 5
        \<and> 5 - int 4 \<le> int (chunk_end (chunks ! 0)) - int (chunk_start (chunks ! Suc 0))"
    using k [THEN spec, of 0] eq by simp
  have cnt: "int (length chunks) = expected_chunk_count (length ?T) 20 5"
    using n nw by blast
  have inv: "chunk ''abc'' 0 0 4 = Inl InvalidConfiguration"
    using chunk_overlap_and_count [of 0 0 "''abc''" 4] by simp
  show ?thesis
    using ev k0 cnt inv eq by simp
qed

section \<open>Properties of the retriever\<close>

lemma key_le_iff_ranks_before:
  "(- snd a, rec_id (fst a)) \<le> (- snd b, rec_id (fst b)) \<longleftrightarrow> ranks_before (to_source a) (to_source b)"
  by (auto simp: ranks_before_def to_source_def less_eq_prod_def)

lemma query_sorted:
  assumes "query sim store v top_k flt = Inr hits"
  shows "sorted_wrt ranks_before (map to_source hits)"
proof -
  let ?key = "\<lambda>(r, s). (- s, rec_id r) :: real \<times> nat"
  let ?cands = "filter (\<lambda>(r, s). case flt of None \<Rightarrow> True | Some p \<Rightarrow> p r)
                  (map (\<lambda>r. (r, sim v (rec_vector r))) store)"
  have hits: "hits = take (nat top_k) (sort_key ?key ?cands)"
    using assms by (simp add: query_def split: if_splits)
  have "sorted (map ?key (sort_key ?key ?cands))" by (rule sorted_sort_key)
  then have "sorted_wrt (\<lambda>a b. ?key a \<le> ?key b) (sort_key ?key ?cands)"
    by (simp add: sorted_wrt_map)
  then have "sorted_wrt (\<lambda>a b. ?key a \<le> ?key b) hits"
    unfolding hits by (rule sorted_wrt_take)
  then have "sorted_wrt (\<lambda>a b. ranks_before (to_source a) (to_source b)) hits"
    by (rule sorted_wrt_mono_rel [rotated])
      (simp add: key_le_iff_ranks_before [symmetric] case_prod_beta)
  then show ?thesis by (simp add: sorted_wrt_map)
qed

lemma set_dedup_ids: "set (dedup_ids seen xs) \<subseteq> set xs"
  by (induction xs arbitrary: seen) auto

lemma sorted_wrt_dedup_ids: "sorted_wrt P xs \<Longrightarrow> sorted_wrt P (dedup_ids seen xs)"
proof (induction xs arbitrary: seen)
  case Nil
  show ?case by simp
next
  case (Cons x xs)
  then show ?case using set_dedup_ids [of "src_id x # seen" xs] by auto
qed

lemma dedup_ids_fresh: "x \<in> set (dedup_ids seen xs) \<Longrightarrow> src_id x \<notin> set seen"
  by (induction seen xs rule: dedup_ids.induct) (auto split: if_splits)

lemma distinct_dedup_ids: "distinct (map src_id (dedup_ids seen xs))"
  by (induction seen xs rule: dedup_ids.induct) (auto dest: dedup_ids_fresh)

lemma search_Inr:
  "0 < top_k \<Longrightarrow> \<exists>hits. query sim store v top_k None = Inr hits
     \<and> search sim store v top_k thr =
         Inr (filter (\<lambda>x. case thr of None \<Rightarrow> True | Some t \<Rightarrow> t \<le> src_score x)
                (dedup_ids [] (map to_source hits)))"
  by (simp add: search_def query_def)

lemma search_Inl: "top_k \<le> 0 \<Longrightarrow> search sim store v top_k thr = Inl InvalidArgument"
  by (simp add: search_def query_def)

lemma search_sorted:
  assumes "search sim store v top_k thr = Inr res"
  shows "sorted_wrt ranks_before res \<and> distinct (map src_id res)"
proof -
  have pos: "0 < top_k"
    using assms search_Inl [of top_k sim store v thr] by (cases "0 < top_k") auto
  from search_Inr [OF pos, of sim store v thr] obtain hits where
    q: "query sim store v top_k None = Inr hits" and
    s: "search sim store v top_k thr =
         Inr (filter (\<lambda>x. case thr of None \<Rightarrow> True | Some t \<Rightarrow> t \<le> src_score x)
                (dedup_ids [] (map to_source hits)))"
    by blast
  have "sorted_wrt ranks_before (dedup_ids [] (map to_source hits))"
    by (rule sorted_wrt_dedup_ids) (rule query_sorted [OF q])
  then have a: "sorted_wrt ranks_before res"
    using s assms by (auto intro: sorted_wrt_filter)
  have "distinct (map src_id (dedup_ids [] (map to_source hits)))"
    by (rule distinct_dedup_ids)
  then have b: "distinct (map src_id res)"
    using s assms by (auto simp: distinct_map_filter)
  show ?thesis using a b by simp
qed

lemma search_threshold:
  assumes "search sim store v top_k None = Inr full"
  shows "search sim store v top_k (Some t) = Inr (filter (\<lambda>x. t \<le> src_score x) full)"
proof -
  have pos: "0 < top_k"
    using assms search_Inl [of top_k sim store v None] by (cases "0 < top_k") auto
  from search_Inr [OF pos, of sim store v None] search_Inr [OF pos, of sim store v "Some t"] assms
  show ?thesis by auto
qed

text \<open>
  C7. For every query vector, store and positive \<^verbatim>\<open>top_k\<close>, \<^verbatim>\<open>search\<close> returns a sequence
  (a \<^verbatim>\<open>top_k\<close> of zero or less fails with \<^verbatim>\<open>InvalidArgument\<close>). The sequence is ordered by
  descending score, equal scores by ascending id, and no id occurs twice. With a score
  threshold the result is the result without one, filtered: the entries below the
  threshold are removed, all others are kept, and they keep their relative order.
\<close>

theorem search_sorted_threshold_filters:
  "(0 < top_k \<longrightarrow> (\<exists>res. search sim store v top_k thr = Inr res))
   \<and> (top_k \<le> 0 \<longrightarrow> search sim store v top_k thr = Inl InvalidArgument)
   \<and> (search sim store v top_k thr = Inr res \<longrightarrow>
        sorted_wrt ranks_before res \<and> distinct (map src_id res))
   \<and> (search sim store v top_k None = Inr full \<longrightarrow>
        search sim store v top_k (Some t) = Inr (filter (\<lambda>x. t \<le> src_score x) full)
        \<and> subseq (filter (\<lambda>x. t \<le> src_score x) full) full
        \<and> (\<forall>x\<in>set full. x \<in> set (filter (\<lambda>x. t \<le> src_score x) full) \<longleftrightarrow> \<not> src_score x < t))"
proof (intro conjI impI)
  assume "0 < top_k"
  then show "\<exists>res. search sim store v top_k thr = Inr res"
    using search_Inr [of top_k sim store v thr] by blast
next
  assume "top_k \<le> 0"
  then show "search sim store v top_k thr = Inl InvalidArgument" by (rule search_Inl)
next
  assume a: "search sim store v top_k thr = Inr res"
  show "sorted_wrt ranks_before res" using search_sorted [OF a] by simp
  show "distinct (map src_id res)" using search_sorted [OF a] by simp
next
  assume a: "search sim store v top_k None = Inr full"
  show "search sim store v top_k (Some t) = Inr (filter (\<lambda>x. t \<le> src_score x) full)"
    by (rule search_threshold [OF a])
  show "subseq (filter (\<lambda>x. t \<le> src_score x) full) full" by simp
  show "\<forall>x\<in>set full. x \<in> set (filter (\<lambda>x. t \<le> src_score x) full) \<longleftrightarrow> \<not> src_score x < t"
    by auto
qed

theorem search_sorted_threshold_filters_witness:
  "search dot
     [\<lparr>rec_id = 2, rec_vector = [1, 0], rec_text = ''b'', rec_metadata = []\<rparr>,
      \<lparr>rec_id = 1, rec_vector = [1, 0], rec_text = ''a'', rec_metadata = []\<rparr>,
      \<lparr>rec_id = 3, rec_vector = [0, 1], rec_text = ''c'', rec_metadata = []\<rparr>] [1, 0] 3 None
     = Inr [\<lparr>src_id = 1, src_text = ''a'', src_metadata = [], src_score = 1\<rparr>,
            \<lparr>src_id = 2, src_text = ''b'', src_metadata = [], src_score = 1\<rparr>,
            \<lparr>src_id = 3, src_text = ''c'', src_metadata = [], src_score = 0\<rparr>]
   \<and> sorted_wrt ranks_before
         [\<lparr>src_id = 1, src_text = ''a'', src_metadata = [], src_score = 1\<rparr>,
          \<lparr>src_id = 2, src_text = ''b'', src_metadata = [], src_score = 1\<rparr>,
          \<lparr>src_id = 3, src_text = ''c'', src_metadata = [], src_score = 0\<rparr>]
   \<and> search dot
         [\<lparr>rec_id = 2, rec_vector = [1, 0], rec_text = ''b'', rec_metadata = []\<rparr>,
          \<lparr>rec_id = 1, rec_vector = [1, 0], rec_text = ''a'', rec_metadata = []\<rparr>,
          \<lparr>rec_id = 3, rec_vector = [0, 1], rec_text = ''c'', rec_metadata = []\<rparr>] [1, 0] 3
         (Some (1 / 2))
       = Inr [\<lparr>src_id = 1, src_text = ''a'', src_metadata = [], src_score = 1\<rparr>,
              \<lparr>src_id = 2, src_text = ''b'', src_metadata = [], src_score = 1\<rparr>]
   \<and> search dot [] [1, 0] 0 None = Inl InvalidArgument"
proof -
  let ?S = "[\<lparr>rec_id = 2, rec_vector = [1, 0], rec_text = ''b'', rec_metadata = []\<rparr>,
             \<lparr>rec_id = 1, rec_vector = [1, 0], rec_text = ''a'', rec_metadata = []\<rparr>,
             \<lparr>rec_id = 3, rec_vector = [0, 1], rec_text = ''c'', rec_metadata = []\<rparr>]"
  let ?R = "[\<lparr>src_id = 1, src_text = ''a'', src_metadata = [], src_score = 1\<rparr>,
             \<lparr>src_id = 2, src_text = ''b'', src_metadata = [], src_score = 1\<rparr>,
             \<lparr>src_id = 3, src_text = ''c'', src_metadata = [], src_score = 0\<rparr>]"
  have ev: "search dot ?S [1, 0] 3 None = Inr ?R"
    by (simp add: search_def query_def dot_def to_source_def less_eq_prod_def)
  have srt: "sorted_wrt ranks_before ?R"
    using ev
      search_sorted_threshold_filters
        [where top_k = 3 and sim = dot and store = ?S and v = "[1, 0]" and thr = None
           and res = ?R]
    by blast
  have thr: "search dot ?S [1, 0] 3 (Some (1 / 2)) = Inr (filter (\<lambda>x. 1 / 2 \<le> src_score x) ?R)"
    using ev
      search_sorted_threshold_filters
        [where top_k = 3 and sim = dot and store = ?S and v = "[1, 0]" and full = ?R
           and t = "1 / 2"]
    by blast
  have inv: "search dot [] [1, 0] 0 None = Inl InvalidArgument"
    using search_sorted_threshold_filters
        [where top_k = 0 and sim = dot and store = "[]" and v = "[1, 0]" and thr = None]
    by simp
  show ?thesis
    using ev srt thr inv by simp
qed

section \<open>Properties of the orchestrator and of its consumer\<close>

text \<open>
  C5. When the encoder has produced the query vector and retrieval yields no sources,
  \<^verbatim>\<open>answer\<close> still calls the generative model, with a prompt that has no context, and
  returns its text as an Answer with an empty source list: the empty retrieval is not
  turned into a failure, and the only error left is the generative model's own.
  Retrieval on an empty store is such a case. The consumer treats the empty list as a normal state: the response is
  shown as an ordinary assistant message with the answer as content and no sources
  badge, \<^verbatim>\<open>currentSources\<close> becomes the empty list so that \<^verbatim>\<open>App\<close> renders no sources
  section, and \<^verbatim>\<open>SourcesPanel\<close> itself renders a placeholder for an empty list.
\<close>

theorem empty_retrieval_answers_without_sources:
  "(encode (query_question q) = Inr v
      \<and> search sim store v (case query_top_k q of None \<Rightarrow> 4 | Some k \<Rightarrow> k)
            (query_score_threshold q) = Inr [] \<longrightarrow>
        answer_query encode generate sim store budget q
          = (case generate (build_prompt (query_question q) []) of
               Inl e \<Rightarrow> Inl GenerationError
             | Inr t \<Rightarrow> Inr \<lparr>answer_text = t, answer_sources = []\<rparr>))
   \<and> ask_response_of \<lparr>answer_text = t, answer_sources = []\<rparr>
        = \<lparr>answer = t, sources = Some []\<rparr>
   \<and> (0 < k \<longrightarrow> search sim [] v k thr = Inr [])
   \<and> SourcesPanel [] =
        \<lparr>panel_summary = ''No sources available'',
         panel_placeholder = Some ''Ask a question to see relevant sources'',
         panel_items = []\<rparr>
   \<and> (\<not> (trim (inputValue st) = [] \<or> isLoading st)
        \<and> post (ask_request (inputValue st)) = Resolved \<lparr>answer = t, sources = Some []\<rparr> \<longrightarrow>
          handleSubmit post (Some handleSourcesUpdate) c1 c2 (st, a) =
            ((st\<lparr>messages := messages st @
                   [\<lparr>msg_id = toString (date_now c1), msg_type = User, content = inputValue st,
                     msg_sources = None, timestamp = new_date c1\<rparr>,
                    \<lparr>msg_id = toString (date_now c2 + 1), msg_type = Assistant, content = t,
                     msg_sources = Some [], timestamp = new_date c2\<rparr>],
                 inputValue := [], isLoading := False\<rparr>,
              a\<lparr>currentSources := []\<rparr>),
             [ask_request (inputValue st)])
        \<and> App_sources_section (a\<lparr>currentSources := []\<rparr>) = None
        \<and> message_sources_badge
              \<lparr>msg_id = toString (date_now c2 + 1), msg_type = Assistant, content = t,
               msg_sources = Some [], timestamp = new_date c2\<rparr> = None)"
proof (intro conjI impI)
  assume h: "encode (query_question q) = Inr v
      \<and> search sim store v (case query_top_k q of None \<Rightarrow> 4 | Some k \<Rightarrow> k)
            (query_score_threshold q) = Inr []"
  then show "answer_query encode generate sim store budget q
          = (case generate (build_prompt (query_question q) []) of
               Inl e \<Rightarrow> Inl GenerationError
             | Inr t \<Rightarrow> Inr \<lparr>answer_text = t, answer_sources = []\<rparr>)"
    by (simp add: answer_query_def Let_def)
next
  show "ask_response_of \<lparr>answer_text = t, answer_sources = []\<rparr>
            = \<lparr>answer = t, sources = Some []\<rparr>"
    by (simp add: ask_response_of_def)
next
  assume "0 < k"
  then show "search sim [] v k thr = Inr []"
    by (simp add: search_def query_def)
next
  show "SourcesPanel [] =
        \<lparr>panel_summary = ''No sources available'',
         panel_placeholder = Some ''Ask a question to see relevant sources'',
         panel_items = []\<rparr>"
    by (simp add: SourcesPanel_def)
next
  assume h: "\<not> (trim (inputValue st) = [] \<or> isLoading st)
        \<and> post (ask_request (inputValue st)) = Resolved \<lparr>answer = t, sources = Some []\<rparr>"
  then have acc: "\<not> (trim (inputValue st) = [] \<or> isLoading st)" by blast
  have r: "fst (askQuestion post (inputValue st)) = Inr \<lparr>answer = t, sources = Some []\<rparr>"
    using h by (simp add: askQuestion_fst)
  have f: "fst (handleSubmit post (Some handleSourcesUpdate) c1 c2 (st, a)) =
            (st\<lparr>messages := messages st @
                   [\<lparr>msg_id = toString (date_now c1), msg_type = User, content = inputValue st,
                     msg_sources = None, timestamp = new_date c1\<rparr>,
                    \<lparr>msg_id = toString (date_now c2 + 1), msg_type = Assistant, content = t,
                     msg_sources = Some [], timestamp = new_date c2\<rparr>],
                 inputValue := [], isLoading := False\<rparr>,
              a\<lparr>currentSources := []\<rparr>)"
    by (simp add: handleSubmit_accepted [OF acc] r handleSubmit_settle_def Let_def
        handleSourcesUpdate_def)
  have s: "snd (handleSubmit post (Some handleSourcesUpdate) c1 c2 (st, a))
      = [ask_request (inputValue st)]"
    using acc by (simp only: handleSubmit_sent if_False)
  show "handleSubmit post (Some handleSourcesUpdate) c1 c2 (st, a) =
            ((st\<lparr>messages := messages st @
                   [\<lparr>msg_id = toString (date_now c1), msg_type = User, content = inputValue st,
                     msg_sources = None, timestamp = new_date c1\<rparr>,
                    \<lparr>msg_id = toString (date_now c2 + 1), msg_type = Assistant, content = t,
                     msg_sources = Some [], timestamp = new_date c2\<rparr>],
                 inputValue := [], isLoading := False\<rparr>,
              a\<lparr>currentSources := []\<rparr>),
             [ask_request (inputValue st)])"
    using f s by (metis prod.collapse)
next
  show "App_sources_section (a\<lparr>currentSources := []\<rparr>) = None"
    by (simp add: App_sources_section_def)
next
  show "message_sources_badge
              \<lparr>msg_id = toString (date_now c2 + 1), msg_type = Assistant, content = t,
               msg_sources = Some [], timestamp = new_date c2\<rparr> = None"
    by (simp add: message_sources_badge_def)
qed

theorem empty_retrieval_answers_without_sources_witness:
  "answer_query (\<lambda>_. Inr [1, 0]) (\<lambda>_. Inr ''I do not know.'') dot [] 1000
       \<lparr>query_question = ''why?'', query_top_k = None, query_score_threshold = None\<rparr>
     = Inr \<lparr>answer_text = ''I do not know.'', answer_sources = []\<rparr>
   \<and> search dot [] [1, 0] 4 None = Inr []
   \<and> handleSubmit (\<lambda>_. Resolved \<lparr>answer = ''I do not know.'', sources = Some []\<rparr>)
         (Some handleSourcesUpdate) \<lparr>date_now = 5, new_date = 6\<rparr> \<lparr>date_now = 8, new_date = 9\<rparr>
         (\<lparr>messages = [], inputValue = ''why?'', isLoading = False\<rparr>,
          \<lparr>currentSources = [\<lparr>source_text = ''old'', metadata = None\<rparr>], uploadedFiles = []\<rparr>)
       = ((\<lparr>messages =
               [\<lparr>msg_id = toString 5, msg_type = User, content = ''why?'', msg_sources = None,
                 timestamp = 6\<rparr>,
                \<lparr>msg_id = toString (8 + 1), msg_type = Assistant, content = ''I do not know.'',
                 msg_sources = Some [], timestamp = 9\<rparr>],
             inputValue = [], isLoading = False\<rparr>,
           \<lparr>currentSources = [], uploadedFiles = []\<rparr>),
          [ask_request ''why?''])"
proof -
  let ?q = "\<lparr>query_question = ''why?'', query_top_k = None, query_score_threshold = None\<rparr>"
  let ?st = "\<lparr>messages = [], inputValue = ''why?'', isLoading = False\<rparr>"
  have s: "search dot [] [1, 0] 4 None = Inr []"
    using empty_retrieval_answers_without_sources
        [where k = 4 and sim = dot and v = "[1, 0]" and thr = None]
    by simp
  have acc: "\<not> (trim (inputValue ?st) = [] \<or> isLoading ?st)"
    by (simp add: trim_def isWhiteSpace_def)
  show ?thesis
    using s acc
      empty_retrieval_answers_without_sources
        [where encode = "\<lambda>_. Inr [1, 0]" and generate = "\<lambda>_. Inr ''I do not know.''"
           and sim = dot and store = "[]" and budget = 1000 and q = ?q and v = "[1, 0]"
           and t = "''I do not know.''"]
      empty_retrieval_answers_without_sources
        [where st = ?st and t = "''I do not know.''"
           and post = "\<lambda>_. Resolved \<lparr>answer = ''I do not know.'', sources = Some []\<rparr>"
           and ?c1.0 = "\<lparr>date_now = 5, new_date = 6\<rparr>"
           and ?c2.0 = "\<lparr>date_now = 8, new_date = 9\<rparr>"
           and a = "\<lparr>currentSources = [\<lparr>source_text = ''old'', metadata = None\<rparr>],
                     uploadedFiles = []\<rparr>"]
    by simp
qed

end
